theory Spec2Isabelle
  imports Main "HOL-Library.Multiset" "HOL-Library.Word"
begin

unbundle bit_operations_syntax

section \<open>JavaScript and viem primitives the allocator relies on\<close>

text \<open>
  The allocator is TypeScript. Its strings are modelled as \<^typ>\<open>string\<close> (the UTF-8 bytes
  of the text), its \<open>bigint\<close>s as \<^typ>\<open>int\<close> (unbounded, two's complement bit operations),
  a value of type \<open>string | null\<close> as \<^typ>\<open>string option\<close>, and every \<open>throw\<close> as a
  value: a primitive that can throw returns \<open>None\<close> where it throws.
\<close>

subsection \<open>\<open>BigInt(string)\<close>\<close>

definition digitVal :: "char \<Rightarrow> nat option" where
  "digitVal c =
     (let n = (of_char c :: nat) in
      if 48 \<le> n \<and> n \<le> 57 then Some (n - 48)
      else if 97 \<le> n \<and> n \<le> 102 then Some (n - 87)
      else if 65 \<le> n \<and> n \<le> 70 then Some (n - 55)
      else None)"

definition isHexDigit :: "char \<Rightarrow> bool" where
  "isHexDigit c = (digitVal c \<noteq> None)"

text \<open>Reads a digit string in the given base, most significant digit first; \<open>None\<close> when
  a character is not a digit of that base.\<close>

fun parseDigits :: "nat \<Rightarrow> nat \<Rightarrow> string \<Rightarrow> nat option" where
  "parseDigits base acc [] = Some acc"
| "parseDigits base acc (c # cs) =
     (case digitVal c of
        None \<Rightarrow> None
      | Some d \<Rightarrow> if d < base then parseDigits base (acc * base + d) cs else None)"

definition parseNat :: "nat \<Rightarrow> string \<Rightarrow> int option" where
  "parseNat base ds = (if ds = [] then None else map_option int (parseDigits base 0 ds))"

definition isWhiteSpace :: "char \<Rightarrow> bool" where
  "isWhiteSpace c = ((of_char c :: nat) \<in> {9, 10, 11, 12, 13, 32})"

definition trim :: "string \<Rightarrow> string" where
  "trim s = rev (dropWhile isWhiteSpace (rev (dropWhile isWhiteSpace s)))"

text \<open>
  \<open>BigInt(s)\<close> on a string (ECMAScript StringToBigInt): white space is trimmed, the empty
  string is \<open>0n\<close>, \<open>0x\<close>/\<open>0o\<close>/\<open>0b\<close> (either case) introduce an unsigned hexadecimal, octal
  or binary literal, anything else must be decimal digits with an optional sign; every
  other string throws a SyntaxError (\<open>None\<close>). Only the ASCII white space is modelled.
\<close>

definition BigInt :: "string \<Rightarrow> int option" where
  "BigInt s =
     (let t = trim s in
      if t = [] then Some 0
      else if take 2 t = ''0x'' \<or> take 2 t = ''0X'' then parseNat 16 (drop 2 t)
      else if take 2 t = ''0o'' \<or> take 2 t = ''0O'' then parseNat 8 (drop 2 t)
      else if take 2 t = ''0b'' \<or> take 2 t = ''0B'' then parseNat 2 (drop 2 t)
      else if hd t = CHR ''+'' then parseNat 10 (tl t)
      else if hd t = CHR ''-'' then map_option uminus (parseNat 10 (tl t))
      else parseNat 10 t)"

subsection \<open>viem's \<open>getAddress\<close>\<close>

text \<open>\<open>toLowerCase\<close> on the ASCII letters (other characters are left as they are).\<close>

definition lowerOf :: "char \<Rightarrow> char" where
  "lowerOf c =
     (case map_of (zip ''ABCDEFGHIJKLMNOPQRSTUVWXYZ'' ''abcdefghijklmnopqrstuvwxyz'') c of
        Some l \<Rightarrow> l
      | None \<Rightarrow> c)"

definition toLowerCase :: "string \<Rightarrow> string" where
  "toLowerCase s = map lowerOf s"

text \<open>An address is \<open>0x\<close> followed by exactly forty hexadecimal digits.\<close>

definition isAddress :: "string \<Rightarrow> bool" where
  "isAddress s = (take 2 s = ''0x'' \<and> length s = 42 \<and> list_all isHexDigit (drop 2 s))"

text \<open>
  \<open>getAddress\<close> throws InvalidAddressError unless its argument is an address, and returns
  the address in checksum spelling, which differs from the argument only in the case of
  its letters. Every consumer of the result in this development (the ABI encoder,
  \<open>toLowerCase\<close>) ignores case, so the model returns the argument.
\<close>

definition getAddress :: "string \<Rightarrow> string option" where
  "getAddress s = (if isAddress s then Some s else None)"

section \<open>Validation results\<close>

text \<open>Exceptions that the validators catch and turn into a failed result.\<close>

datatype jsError =
    SyntaxError \<comment> \<open>\<open>BigInt\<close> of a string that is not an integer literal\<close>
  | InvalidAddressError \<comment> \<open>\<open>getAddress\<close> of a string that is not an address\<close>
  | IndexerError \<comment> \<open>the indexer request rejected\<close>
  | StoreError \<comment> \<open>the database query rejected\<close>
  | EncodingError \<comment> \<open>\<open>toPositiveBigInt\<close> rejected the field\<close>
  | AbiEncodingError \<comment> \<open>\<open>encodeAbiParameters\<close> rejected a value (size or range)\<close>

text \<open>
  A \<open>ValidationResult\<close> is \<open>{isValid: true}\<close> or \<open>{isValid: false, error}\<close>. The error
  strings are modelled by constructors carrying the values the message interpolates;
  the optional \<open>lockTag\<close> is present in the messages of the batch and multichain paths.
\<close>

datatype vError =
    CompactHasExpired \<comment> \<open>Compact has expired\<close>
  | ExpirationMustBeWithin2Hours \<comment> \<open>Expiration must be within 2 hours\<close>
  | ResourceLockNotFound "string option" \<comment> \<open>Resource lock not found [for commitment ..]\<close>
  | ForcedWithdrawalsEnabled "string option" \<comment> \<open>Resource lock [..] has forced withdrawals enabled\<close>
  | InvalidAllocatorID "string option" \<comment> \<open>Invalid allocator ID [for commitment with lockTag ..]\<close>
  | InsufficientAllocatableBalance "string option" int int
      \<comment> \<open>Insufficient allocatable balance [for commitment ..] (have .., need ..)\<close>
  | ChainConfigurationNotFound \<comment> \<open>Chain configuration not found\<close>
  | NoElementsFoundForChain string \<comment> \<open>No elements found for chain ..\<close>
  | AllocationValidationError jsError \<comment> \<open>[Batch/Multichain] allocation validation error: ..\<close>
  | InvalidArbiterAddress \<comment> \<open>Invalid arbiter address: ..\<close>
  | InvalidAddress \<comment> \<open>Invalid address: ..\<close>
  | InvalidSponsorAddress \<comment> \<open>Invalid sponsor address: ..\<close>
  | NonceRequired \<comment> \<open>Nonce is required. Use /suggested-nonce/:chainId to get a valid nonce.\<close>
  | WitnessMismatch \<comment> \<open>Witness type and hash must both be present or both be null\<close>
  | NoCommitments \<comment> \<open>BatchCompact must have at least one commitment\<close>
  | InvalidLockTagFormat string \<comment> \<open>Invalid lock tag format [in element]: ..\<close>
  | InvalidTokenAddress string \<comment> \<open>Invalid token address [in element]: ..\<close>
  | NoElements \<comment> \<open>MultichainCompact must have at least one element\<close>
  | InvalidElementArbiter string \<comment> \<open>Invalid arbiter address in element: ..\<close>
  | ElementWithoutCommitments \<comment> \<open>Each element must have at least one commitment\<close>
  | ElementWithoutWitnessHash \<comment> \<open>Each element must have a witnessHash\<close>
  | MissingWitnessTypeString \<comment> \<open>MultichainCompact must have a witnessTypeString\<close>
  | Thrown jsError \<comment> \<open>the message of a caught exception\<close>
  | StructuralValidationError jsError \<comment> \<open>[Batch/Multichain] structural validation error: ..\<close>
  | InvalidChainIDFormat \<comment> \<open>Invalid chain ID format\<close>
  | CurrentChainNotFound string \<comment> \<open>Current chain .. not found in multichain compact elements\<close>
  | NonceRejected \<comment> \<open>any failure reported by \<open>validateNonce\<close>\<close>

datatype ValidationResult = Valid | Invalid vError

section \<open>Expiration window (validation/structure.ts)\<close>

text \<open>
  \<open>validateExpiration\<close> reads the clock; the model takes \<open>Date.now()\<close> (milliseconds) as
  its first argument. \<open>Math.floor(Date.now() / 1000)\<close> is \<open>nowMs div 1000\<close>.
\<close>

definition validateExpiration :: "int \<Rightarrow> int \<Rightarrow> ValidationResult" where
  "validateExpiration nowMs expires =
     (let now = nowMs div 1000; twoHours = 7200 in
      if expires \<le> now then Invalid CompactHasExpired
      else if expires > now + twoHours then Invalid ExpirationMustBeWithin2Hours
      else Valid)"

section \<open>Allocation validation (validation/allocation.ts)\<close>

record Lock =
  lockTag :: string
  token :: string
  amount :: string

record ValidatedCompactMessage =
  vc_arbiter :: string
  vc_sponsor :: string
  vc_nonce :: int
  vc_expires :: int
  vc_id :: int
  vc_amount :: string
  vc_witnessTypeString :: "string option"
  vc_witnessHash :: "string option"

record ValidatedBatchCompactMessage =
  vb_arbiter :: string
  vb_sponsor :: string
  vb_nonce :: int
  vb_expires :: int
  vb_commitments :: "Lock list"
  vb_witnessTypeString :: "string option"
  vb_witnessHash :: "string option"

record ValidatedElement =
  ve_arbiter :: string
  ve_chainId :: int
  ve_commitments :: "Lock list"
  ve_witnessHash :: string

record ValidatedMultichainCompactMessage =
  vm_sponsor :: string
  vm_nonce :: int
  vm_expires :: int
  vm_elements :: "ValidatedElement list"
  vm_witnessTypeString :: string

text \<open>What the indexer returns for one (sponsor, lock, chain): the resource locks found
  (the code reads the first), the account deltas and the settled claims.\<close>

record ResourceLock =
  withdrawalStatus :: int
  balance :: string

record CompactDetails =
  resourceLocks :: "ResourceLock list"
  accountDeltas :: "string list"
  claims :: "string list"

record SupportedChain =
  sc_chainId :: string
  sc_allocatorId :: string

text \<open>
  The collaborators outside the module are parameters: \<open>getCompactDetails sponsor lockId
  chainId\<close> is the indexer query (\<open>None\<close> when the request rejects; the lock id is passed
  as the integer whose decimal rendering the code sends), the cached supported chains are
  an optional list (\<open>getCachedSupportedChains()\<close> may be undefined), and
  \<open>getAllocatedBalance sponsor chainId lockId settledClaims\<close> is the sum of the stored,
  unexpired, unsettled commitments on the lock (\<open>None\<close> when the query rejects). A
  response without an account makes the code throw on \<open>response.account.resourceLocks\<close>;
  the model counts it with the rejected request.
\<close>

type_synonym indexer = "string \<Rightarrow> int \<Rightarrow> string \<Rightarrow> CompactDetails option"
type_synonym allocatedStore = "string \<Rightarrow> string \<Rightarrow> int \<Rightarrow> string list \<Rightarrow> int option"

definition buildLockId :: "string \<Rightarrow> string \<Rightarrow> int option" where
  "buildLockId tok tag =
     (case BigInt tok of
        None \<Rightarrow> None
      | Some tokenAddress \<Rightarrow>
          (case BigInt tag of
             None \<Rightarrow> None
           | Some lockTagValue \<Rightarrow> Some (push_bit 160 lockTagValue OR tokenAddress)))"

definition findChain :: "SupportedChain list option \<Rightarrow> string \<Rightarrow> SupportedChain option" where
  "findChain cache chainId =
     (case cache of None \<Rightarrow> None | Some supported \<Rightarrow> find (\<lambda>chain. sc_chainId chain = chainId) supported)"

text \<open>\<open>items.reduce((sum, delta) => sum + BigInt(delta.delta), BigInt(0))\<close>\<close>

fun sumDeltas :: "int \<Rightarrow> string list \<Rightarrow> int option" where
  "sumDeltas acc [] = Some acc"
| "sumDeltas acc (d # ds) =
     (case BigInt d of None \<Rightarrow> None | Some v \<Rightarrow> sumDeltas (acc + v) ds)"

definition allocatableBalance :: "int \<Rightarrow> int \<Rightarrow> int" where
  "allocatableBalance resourceLockBalance pendingBalance =
     (if resourceLockBalance > pendingBalance then resourceLockBalance - pendingBalance else 0)"

text \<open>
  The balance block, which the three validators repeat word for word (only the message
  differs: the batch and multichain paths name the commitment's lockTag): pending
  balance, allocatable balance, allocated balance from the store, and the comparison.
\<close>

definition checkBalance ::
  "allocatedStore \<Rightarrow> string option \<Rightarrow> CompactDetails \<Rightarrow> ResourceLock \<Rightarrow>
   string \<Rightarrow> string \<Rightarrow> int \<Rightarrow> string \<Rightarrow> ValidationResult" where
  "checkBalance getAllocatedBalance tag response resourceLock sponsor chainId lockId amt =
     (case sumDeltas 0 (accountDeltas response) of
        None \<Rightarrow> Invalid (AllocationValidationError SyntaxError)
      | Some pendingBalance \<Rightarrow>
     (case BigInt (balance resourceLock) of
        None \<Rightarrow> Invalid (AllocationValidationError SyntaxError)
      | Some resourceLockBalance \<Rightarrow>
     (case getAddress sponsor of
        None \<Rightarrow> Invalid (AllocationValidationError InvalidAddressError)
      | Some sponsorAddress \<Rightarrow>
     (case getAllocatedBalance (toLowerCase sponsorAddress) chainId lockId (claims response) of
        None \<Rightarrow> Invalid (AllocationValidationError StoreError)
      | Some allocatedBalance \<Rightarrow>
     (case BigInt amt of
        None \<Rightarrow> Invalid (AllocationValidationError SyntaxError)
      | Some compactAmount \<Rightarrow>
          (let have = allocatableBalance resourceLockBalance pendingBalance;
               totalNeededBalance = allocatedBalance + compactAmount
           in if have < totalNeededBalance
              then Invalid (InsufficientAllocatableBalance tag have totalNeededBalance)
              else Valid))))))"

definition validateAllocation ::
  "indexer \<Rightarrow> SupportedChain list option \<Rightarrow> allocatedStore \<Rightarrow>
   ValidatedCompactMessage \<Rightarrow> string \<Rightarrow> ValidationResult" where
  "validateAllocation getCompactDetails cache getAllocatedBalance compact chainId =
     (let allocatorId = drop_bit 160 (vc_id compact) AND (push_bit 92 1 - 1) in
      case getCompactDetails (vc_sponsor compact) (vc_id compact) chainId of
        None \<Rightarrow> Invalid (AllocationValidationError IndexerError)
      | Some response \<Rightarrow>
          (case resourceLocks response of
             [] \<Rightarrow> Invalid (ResourceLockNotFound None)
           | resourceLock # _ \<Rightarrow>
               if withdrawalStatus resourceLock \<noteq> 0 then Invalid (ForcedWithdrawalsEnabled None)
               else
                 (case findChain cache chainId of
                    None \<Rightarrow> Invalid (InvalidAllocatorID None)
                  | Some chainConfig \<Rightarrow>
                      (case BigInt (sc_allocatorId chainConfig) of
                         None \<Rightarrow> Invalid (AllocationValidationError SyntaxError)
                       | Some configured \<Rightarrow>
                           if configured \<noteq> allocatorId then Invalid (InvalidAllocatorID None)
                           else checkBalance getAllocatedBalance None response resourceLock
                                  (vc_sponsor compact) chainId (vc_id compact) (vc_amount compact)))))"

text \<open>
  The body of the loop over commitments, the same in \<open>validateBatchAllocation\<close> and
  \<open>validateMultichainAllocation\<close>: lock id, allocator id from the lock tag, the
  comparison with the configured allocator id, the indexer query, the lock checks and the
  balance block.
\<close>

definition checkCommitment ::
  "indexer \<Rightarrow> allocatedStore \<Rightarrow> SupportedChain \<Rightarrow> string \<Rightarrow> string \<Rightarrow> Lock \<Rightarrow>
   ValidationResult" where
  "checkCommitment getCompactDetails getAllocatedBalance chainConfig sponsor chainId commitment =
     (case buildLockId (token commitment) (lockTag commitment) of
        None \<Rightarrow> Invalid (AllocationValidationError SyntaxError)
      | Some lockId \<Rightarrow>
     (case BigInt (lockTag commitment) of
        None \<Rightarrow> Invalid (AllocationValidationError SyntaxError)
      | Some tagValue \<Rightarrow>
     (let allocatorId = drop_bit 4 tagValue AND (push_bit 92 1 - 1) in
      case BigInt (sc_allocatorId chainConfig) of
        None \<Rightarrow> Invalid (AllocationValidationError SyntaxError)
      | Some configured \<Rightarrow>
          if configured \<noteq> allocatorId
          then Invalid (InvalidAllocatorID (Some (lockTag commitment)))
          else
            (case getCompactDetails sponsor lockId chainId of
               None \<Rightarrow> Invalid (AllocationValidationError IndexerError)
             | Some response \<Rightarrow>
                 (case resourceLocks response of
                    [] \<Rightarrow> Invalid (ResourceLockNotFound (Some (lockTag commitment)))
                  | resourceLock # _ \<Rightarrow>
                      if withdrawalStatus resourceLock \<noteq> 0
                      then Invalid (ForcedWithdrawalsEnabled (Some (lockTag commitment)))
                      else checkBalance getAllocatedBalance (Some (lockTag commitment)) response
                             resourceLock sponsor chainId lockId (amount commitment))))))"

text \<open>\<open>for (const commitment of commitments) { ... return on failure ... }\<close>\<close>

fun checkCommitments ::
  "indexer \<Rightarrow> allocatedStore \<Rightarrow> SupportedChain \<Rightarrow> string \<Rightarrow> string \<Rightarrow> Lock list \<Rightarrow>
   ValidationResult" where
  "checkCommitments ix st cfg sponsor chainId [] = Valid"
| "checkCommitments ix st cfg sponsor chainId (c # cs) =
     (case checkCommitment ix st cfg sponsor chainId c of
        Invalid e \<Rightarrow> Invalid e
      | Valid \<Rightarrow> checkCommitments ix st cfg sponsor chainId cs)"

definition validateBatchAllocation ::
  "indexer \<Rightarrow> SupportedChain list option \<Rightarrow> allocatedStore \<Rightarrow>
   ValidatedBatchCompactMessage \<Rightarrow> string \<Rightarrow> ValidationResult" where
  "validateBatchAllocation getCompactDetails cache getAllocatedBalance compact chainId =
     (case findChain cache chainId of
        None \<Rightarrow> Invalid ChainConfigurationNotFound
      | Some chainConfig \<Rightarrow>
          checkCommitments getCompactDetails getAllocatedBalance chainConfig
            (vb_sponsor compact) chainId (vb_commitments compact))"

text \<open>The outer loop of the multichain path: every element on the current chain.\<close>

fun checkElements ::
  "indexer \<Rightarrow> allocatedStore \<Rightarrow> SupportedChain \<Rightarrow> string \<Rightarrow> string \<Rightarrow>
   ValidatedElement list \<Rightarrow> ValidationResult" where
  "checkElements ix st cfg sponsor chainId [] = Valid"
| "checkElements ix st cfg sponsor chainId (e # es) =
     (case checkCommitments ix st cfg sponsor chainId (ve_commitments e) of
        Invalid err \<Rightarrow> Invalid err
      | Valid \<Rightarrow> checkElements ix st cfg sponsor chainId es)"

definition validateMultichainAllocation ::
  "indexer \<Rightarrow> SupportedChain list option \<Rightarrow> allocatedStore \<Rightarrow>
   ValidatedMultichainCompactMessage \<Rightarrow> string \<Rightarrow> ValidationResult" where
  "validateMultichainAllocation getCompactDetails cache getAllocatedBalance compact chainId =
     (case findChain cache chainId of
        None \<Rightarrow> Invalid ChainConfigurationNotFound
      | Some chainConfig \<Rightarrow>
          (case BigInt chainId of
             None \<Rightarrow>
               (if vm_elements compact = [] then Invalid (NoElementsFoundForChain chainId)
                else Invalid (AllocationValidationError SyntaxError))
           | Some chainIdValue \<Rightarrow>
               (let currentChainElements =
                      filter (\<lambda>element. ve_chainId element = chainIdValue) (vm_elements compact)
                in if length currentChainElements = 0
                   then Invalid (NoElementsFoundForChain chainId)
                   else checkElements getCompactDetails getAllocatedBalance chainConfig
                          (vm_sponsor compact) chainId currentChainElements)))"


section \<open>Structural validation (validation/structure.ts)\<close>

text \<open>The messages as they arrive from the API (validation/types.ts).\<close>

record CompactMessage =
  cm_arbiter :: string
  cm_sponsor :: string
  cm_nonce :: "string option"
  cm_expires :: string
  cm_id :: string
  cm_amount :: string
  cm_witnessTypeString :: "string option"
  cm_witnessHash :: "string option"

record BatchCompactMessage =
  bm_arbiter :: string
  bm_sponsor :: string
  bm_nonce :: "string option"
  bm_expires :: string
  bm_commitments :: "Lock list"
  bm_witnessTypeString :: "string option"
  bm_witnessHash :: "string option"

record Element =
  el_arbiter :: string
  el_chainId :: string
  el_commitments :: "Lock list"
  el_witnessHash :: string

record MultichainCompactMessage =
  mm_sponsor :: string
  mm_nonce :: "string option"
  mm_expires :: string
  mm_elements :: "Element list"
  mm_witnessTypeString :: string

text \<open>\<open>bigint.toString()\<close>: the decimal rendering.\<close>

definition digitChar :: "nat \<Rightarrow> char" where
  "digitChar d = ''0123456789'' ! d"

fun showNat :: "nat \<Rightarrow> string" where
  "showNat n = (if n < 10 then [digitChar n] else showNat (n div 10) @ [digitChar (n mod 10)])"

declare showNat.simps [simp del]

definition showInt :: "int \<Rightarrow> string" where
  "showInt i = (if i < 0 then CHR ''-'' # showNat (nat (- i)) else showNat (nat i))"

text \<open>Strings of decimal digits (used in the proofs about \<open>showInt\<close>).\<close>

definition isDigits :: "string \<Rightarrow> bool" where
  "isDigits s = (\<forall>c\<in>set s. \<exists>d<10. c = digitChar d)"

text \<open>The regular expression \<open>/^0x[0-9a-fA-F]{24}$/\<close>.\<close>

definition matchesLockTag :: "string \<Rightarrow> bool" where
  "matchesLockTag s = (take 2 s = ''0x'' \<and> length s = 26 \<and> list_all isHexDigit (drop 2 s))"

text \<open>
  \<open>toPositiveBigInt\<close> (utils/encoding.ts) is outside the module: the validators take it
  as a parameter, \<open>None\<close> where it throws.
\<close>

type_synonym encoding = "string \<Rightarrow> int option"

definition witnessInconsistent :: "string option \<Rightarrow> string option \<Rightarrow> bool" where
  "witnessInconsistent witnessTypeString witnessHash =
     ((witnessTypeString = None \<and> witnessHash \<noteq> None) \<or>
      (witnessTypeString \<noteq> None \<and> witnessHash = None))"

definition validateStructure ::
  "encoding \<Rightarrow> CompactMessage \<Rightarrow> vError + ValidatedCompactMessage" where
  "validateStructure toPositiveBigInt compact =
     (if getAddress (cm_arbiter compact) = None \<or> getAddress (cm_sponsor compact) = None
      then Inl InvalidArbiterAddress
      else
     (case toPositiveBigInt (cm_id compact) of
        None \<Rightarrow> Inl (Thrown EncodingError)
      | Some idValue \<Rightarrow>
     (case toPositiveBigInt (cm_expires compact) of
        None \<Rightarrow> Inl (Thrown EncodingError)
      | Some expires \<Rightarrow>
     (case toPositiveBigInt (cm_amount compact) of
        None \<Rightarrow> Inl (Thrown EncodingError)
      | Some amountValue \<Rightarrow>
     (case cm_nonce compact of
        None \<Rightarrow> Inl NonceRequired
      | Some nonceString \<Rightarrow>
     (case toPositiveBigInt nonceString of
        None \<Rightarrow> Inl (Thrown EncodingError)
      | Some nonce \<Rightarrow>
          (let validatedCompact =
                 \<lparr>vc_arbiter = cm_arbiter compact,
                  vc_sponsor = cm_sponsor compact,
                  vc_nonce = nonce,
                  vc_expires = expires,
                  vc_id = idValue,
                  vc_amount = showInt amountValue,
                  vc_witnessTypeString = cm_witnessTypeString compact,
                  vc_witnessHash = cm_witnessHash compact\<rparr>
           in if witnessInconsistent (vc_witnessTypeString validatedCompact)
                   (vc_witnessHash validatedCompact)
              then Inl WitnessMismatch
              else Inr validatedCompact)))))))"

text \<open>The loop over the commitments of a batch compact (and, with the same checks, of a
  multichain element): the first failing commitment decides. An exception of
  \<open>toPositiveBigInt\<close> leaves the loop for the enclosing \<open>catch\<close>.\<close>

fun validateCommitments :: "encoding \<Rightarrow> Lock list \<Rightarrow> vError + Lock list" where
  "validateCommitments toPositiveBigInt [] = Inr []"
| "validateCommitments toPositiveBigInt (commitment # rest) =
     (if lockTag commitment = [] \<or> \<not> matchesLockTag (lockTag commitment)
      then Inl (InvalidLockTagFormat (lockTag commitment))
      else if getAddress (token commitment) = None
      then Inl (InvalidTokenAddress (token commitment))
      else
        (case toPositiveBigInt (amount commitment) of
           None \<Rightarrow> Inl (StructuralValidationError EncodingError)
         | Some amountValue \<Rightarrow>
             (case validateCommitments toPositiveBigInt rest of
                Inl e \<Rightarrow> Inl e
              | Inr validatedCommitments \<Rightarrow>
                  Inr (\<lparr>lockTag = lockTag commitment,
                        token = token commitment,
                        amount = showInt amountValue\<rparr> # validatedCommitments))))"

definition validateBatchStructure ::
  "encoding \<Rightarrow> BatchCompactMessage \<Rightarrow> vError + ValidatedBatchCompactMessage" where
  "validateBatchStructure toPositiveBigInt compact =
     (if getAddress (bm_arbiter compact) = None \<or> getAddress (bm_sponsor compact) = None
      then Inl InvalidAddress
      else
     (case bm_nonce compact of
        None \<Rightarrow> Inl NonceRequired
      | Some nonceString \<Rightarrow>
     (case toPositiveBigInt nonceString of
        None \<Rightarrow> Inl (StructuralValidationError EncodingError)
      | Some nonce \<Rightarrow>
     (case toPositiveBigInt (bm_expires compact) of
        None \<Rightarrow> Inl (StructuralValidationError EncodingError)
      | Some expires \<Rightarrow>
          if length (bm_commitments compact) = 0 then Inl NoCommitments
          else
            (case validateCommitments toPositiveBigInt (bm_commitments compact) of
               Inl e \<Rightarrow> Inl e
             | Inr validatedCommitments \<Rightarrow>
                 (let validatedCompact =
                        \<lparr>vb_arbiter = bm_arbiter compact,
                         vb_sponsor = bm_sponsor compact,
                         vb_nonce = nonce,
                         vb_expires = expires,
                         vb_commitments = validatedCommitments,
                         vb_witnessTypeString = bm_witnessTypeString compact,
                         vb_witnessHash = bm_witnessHash compact\<rparr>
                  in if witnessInconsistent (vb_witnessTypeString validatedCompact)
                          (vb_witnessHash validatedCompact)
                     then Inl WitnessMismatch
                     else Inr validatedCompact))))))"

fun validateElements :: "encoding \<Rightarrow> Element list \<Rightarrow> vError + ValidatedElement list" where
  "validateElements toPositiveBigInt [] = Inr []"
| "validateElements toPositiveBigInt (element # rest) =
     (if getAddress (el_arbiter element) = None
      then Inl (InvalidElementArbiter (el_arbiter element))
      else
        (case toPositiveBigInt (el_chainId element) of
           None \<Rightarrow> Inl (StructuralValidationError EncodingError)
         | Some chainId \<Rightarrow>
             if length (el_commitments element) = 0 then Inl ElementWithoutCommitments
             else
               (case validateCommitments toPositiveBigInt (el_commitments element) of
                  Inl e \<Rightarrow> Inl e
                | Inr validatedCommitments \<Rightarrow>
                    if el_witnessHash element = [] then Inl ElementWithoutWitnessHash
                    else
                      (case validateElements toPositiveBigInt rest of
                         Inl e \<Rightarrow> Inl e
                       | Inr validatedElements \<Rightarrow>
                           Inr (\<lparr>ve_arbiter = el_arbiter element,
                                 ve_chainId = chainId,
                                 ve_commitments = validatedCommitments,
                                 ve_witnessHash = el_witnessHash element\<rparr>
                                # validatedElements)))))"

definition validateMultichainStructure ::
  "encoding \<Rightarrow> MultichainCompactMessage \<Rightarrow> vError + ValidatedMultichainCompactMessage" where
  "validateMultichainStructure toPositiveBigInt compact =
     (if getAddress (mm_sponsor compact) = None then Inl InvalidSponsorAddress
      else
     (case mm_nonce compact of
        None \<Rightarrow> Inl NonceRequired
      | Some nonceString \<Rightarrow>
     (case toPositiveBigInt nonceString of
        None \<Rightarrow> Inl (StructuralValidationError EncodingError)
      | Some nonce \<Rightarrow>
     (case toPositiveBigInt (mm_expires compact) of
        None \<Rightarrow> Inl (StructuralValidationError EncodingError)
      | Some expires \<Rightarrow>
          if length (mm_elements compact) = 0 then Inl NoElements
          else
            (case validateElements toPositiveBigInt (mm_elements compact) of
               Inl e \<Rightarrow> Inl e
             | Inr validatedElements \<Rightarrow>
                 if mm_witnessTypeString compact = [] then Inl MissingWitnessTypeString
                 else Inr \<lparr>vm_sponsor = mm_sponsor compact,
                           vm_nonce = nonce,
                           vm_expires = expires,
                           vm_elements = validatedElements,
                           vm_witnessTypeString = mm_witnessTypeString compact\<rparr>)))))"

section \<open>Validation of a multichain submission (validation/compact.ts)\<close>

text \<open>
  \<open>validateMultichainCompact\<close> runs the checks in order and returns the first failure.
  Its collaborators are parameters: \<open>chainIdFormatOk chainId\<close> is the outcome of the chain
  id test (\<open>parseInt\<close> gives a number that is positive and prints back as \<open>chainId\<close>; the
  test is on JavaScript doubles), \<open>validateNonce nonce sponsor chainId\<close> is the nonce
  service, \<open>nowMs\<close> the clock. The test \<open>validatedCompact.nonce === null\<close> cannot succeed
  on a bigint and has no branch here. An exception inside the \<open>try\<close> gives the result
  \<open>Thrown\<close>.
\<close>

definition validateMultichainCompact ::
  "(string \<Rightarrow> bool) \<Rightarrow> encoding \<Rightarrow> (int \<Rightarrow> string \<Rightarrow> string \<Rightarrow> ValidationResult) \<Rightarrow> int \<Rightarrow>
   indexer \<Rightarrow> SupportedChain list option \<Rightarrow> allocatedStore \<Rightarrow>
   MultichainCompactMessage \<Rightarrow> string \<Rightarrow> vError + ValidatedMultichainCompactMessage" where
  "validateMultichainCompact chainIdFormatOk toPositiveBigInt validateNonce nowMs
     getCompactDetails cache getAllocatedBalance compact chainId =
     (if \<not> chainIdFormatOk chainId then Inl InvalidChainIDFormat
      else
     (case validateMultichainStructure toPositiveBigInt compact of
        Inl e \<Rightarrow> Inl e
      | Inr validatedCompact \<Rightarrow>
     (case validateNonce (vm_nonce validatedCompact) (vm_sponsor validatedCompact) chainId of
        Invalid e \<Rightarrow> Inl e
      | Valid \<Rightarrow>
     (case validateExpiration nowMs (vm_expires validatedCompact) of
        Invalid e \<Rightarrow> Inl e
      | Valid \<Rightarrow>
          if length (vm_elements validatedCompact) = 0 then Inl NoElements
          else
            (case BigInt chainId of
               None \<Rightarrow> Inl (Thrown SyntaxError)
             | Some chainIdValue \<Rightarrow>
                 (case find (\<lambda>element. ve_chainId element = chainIdValue)
                         (vm_elements validatedCompact) of
                    None \<Rightarrow> Inl (CurrentChainNotFound chainId)
                  | Some currentChainElement \<Rightarrow>
                      (case validateMultichainAllocation getCompactDetails cache
                              getAllocatedBalance validatedCompact chainId of
                         Invalid e \<Rightarrow> Inl e
                       | Valid \<Rightarrow> Inr validatedCompact)))))))"

section \<open>Claim hashes (crypto.ts)\<close>

subsection \<open>Bytes, keccak-256 and the ABI encoder\<close>

type_synonym byte = "8 word"
type_synonym hash = "256 word"

text \<open>
  \<open>keccak256\<close> is viem's; every hashing function below takes it as its first argument
  \<open>kec\<close>, from byte strings to 32-byte hashes. \<open>encodePacked(['string'], [s])\<close> is the
  bytes of the string.
\<close>

type_synonym keccak = "byte list \<Rightarrow> hash"

definition encodePackedString :: "string \<Rightarrow> byte list" where
  "encodePackedString s = map of_char s"

text \<open>The \<open>k\<close> low-order bytes of a number, most significant first.\<close>

fun be_bytes :: "nat \<Rightarrow> nat \<Rightarrow> byte list" where
  "be_bytes 0 n = []"
| "be_bytes (Suc k) n = be_bytes k (n div 256) @ [word_of_nat n]"

text \<open>
  The 32-byte words of \<open>encodeAbiParameters\<close>. A \<open>uint256\<close> outside \<open>0 .. 2^256 - 1\<close> is
  rejected; an \<open>address\<close> is its 160-bit number, left-padded; a \<open>bytes32\<close> is the hash;
  a \<open>bytes12\<close> is right-padded with 20 zero bytes. The string forms are modelled on the
  spellings the validators let through (\<open>0x\<close> and 24 or 64 hexadecimal digits); any other
  spelling is an encoding error here.
\<close>

definition encodeUint256 :: "int \<Rightarrow> jsError + byte list" where
  "encodeUint256 v = (if 0 \<le> v \<and> v < 2 ^ 256 then Inr (be_bytes 32 (nat v)) else Inl AbiEncodingError)"

definition encodeAddress :: "string \<Rightarrow> jsError + byte list" where
  "encodeAddress a =
     (if isAddress a
      then (case parseDigits 16 0 (drop 2 a) of
              None \<Rightarrow> Inl InvalidAddressError
            | Some v \<Rightarrow> Inr (be_bytes 32 v))
      else Inl InvalidAddressError)"

definition encodeHash :: "hash \<Rightarrow> byte list" where
  "encodeHash h = be_bytes 32 (unat h)"

definition encodeBytes12 :: "string \<Rightarrow> jsError + byte list" where
  "encodeBytes12 s =
     (if matchesLockTag s
      then (case parseDigits 16 0 (drop 2 s) of
              None \<Rightarrow> Inl AbiEncodingError
            | Some v \<Rightarrow> Inr (be_bytes 12 v @ replicate 20 0))
      else Inl AbiEncodingError)"

definition encodeBytes32 :: "string \<Rightarrow> jsError + byte list" where
  "encodeBytes32 s =
     (if take 2 s = ''0x'' \<and> length s = 66 \<and> list_all isHexDigit (drop 2 s)
      then (case parseDigits 16 0 (drop 2 s) of
              None \<Rightarrow> Inl AbiEncodingError
            | Some v \<Rightarrow> Inr (be_bytes 32 v))
      else Inl AbiEncodingError)"

text \<open>Sequencing of steps that can throw: the first error wins.\<close>

definition bindE :: "jsError + 'a \<Rightarrow> ('a \<Rightarrow> jsError + 'b) \<Rightarrow> jsError + 'b" where
  "bindE m f = (case m of Inl e \<Rightarrow> Inl e | Inr x \<Rightarrow> f x)"

fun mapE :: "('a \<Rightarrow> jsError + 'b) \<Rightarrow> 'a list \<Rightarrow> jsError + 'b list" where
  "mapE f [] = Inr []"
| "mapE f (x # xs) = bindE (f x) (\<lambda>y. bindE (mapE f xs) (\<lambda>ys. Inr (y # ys)))"

definition orThrow :: "jsError \<Rightarrow> 'a option \<Rightarrow> jsError + 'a" where
  "orThrow e m = (case m of None \<Rightarrow> Inl e | Some x \<Rightarrow> Inr x)"

subsection \<open>Canonical order of commitments\<close>

text \<open>\<open>(BigInt(a.lockTag) << BigInt(160)) | BigInt(a.token)\<close>\<close>

definition lockIdOf :: "Lock \<Rightarrow> int option" where
  "lockIdOf a =
     (case BigInt (lockTag a) of
        None \<Rightarrow> None
      | Some tagValue \<Rightarrow>
          (case BigInt (token a) of
             None \<Rightarrow> None
           | Some tokenValue \<Rightarrow> Some (push_bit 160 tagValue OR tokenValue)))"

definition lockIdKey :: "Lock \<Rightarrow> int" where
  "lockIdKey a = (case lockIdOf a of None \<Rightarrow> 0 | Some v \<Rightarrow> v)"

text \<open>
  \<open>[...commitments].sort(comparator)\<close> with the comparator on lock ids.
  \<open>Array.prototype.sort\<close> is stable, and the comparator is a total preorder on the lock
  ids, so the result is the stable sort by lock id (\<^const>\<open>sort_key\<close> is an insertion sort,
  which is stable). With fewer than two entries the comparator is never called; with two or
  more it is called on every entry, and throws a SyntaxError where \<open>BigInt\<close> does.
\<close>

definition sortCommitments :: "Lock list \<Rightarrow> jsError + Lock list" where
  "sortCommitments cs =
     (if length cs < 2 then Inr cs
      else if list_all (\<lambda>c. lockIdOf c \<noteq> None) cs then Inr (sort_key lockIdKey cs)
      else Inl SyntaxError)"

subsection \<open>\<open>generateBatchClaimHash\<close>\<close>

text \<open>The callback of \<open>sortedCommitments.map\<close>: the lock tag with \<open>0x\<close> prepended when it
  is missing, the normalised token, the amount as a bigint.\<close>

definition prepareBatchLock :: "Lock \<Rightarrow> jsError + (string \<times> string \<times> int)" where
  "prepareBatchLock c =
     (let tag = (if take 2 (lockTag c) = ''0x'' then lockTag c else ''0x'' @ lockTag c) in
      bindE (orThrow InvalidAddressError (getAddress (token c))) (\<lambda>tok.
      bindE (orThrow SyntaxError (BigInt (amount c))) (\<lambda>amt.
      Inr (tag, tok, amt))))"

text \<open>One \<open>(bytes12 lockTag, address token, uint256 amount)\<close> tuple: three words.\<close>

definition encodeLock :: "string \<times> string \<times> int \<Rightarrow> jsError + byte list" where
  "encodeLock t =
     (case t of (tag, tok, amt) \<Rightarrow>
        bindE (encodeBytes12 tag) (\<lambda>w1.
        bindE (encodeAddress tok) (\<lambda>w2.
        bindE (encodeUint256 amt) (\<lambda>w3.
        Inr (w1 @ w2 @ w3)))))"

text \<open>A single parameter of type \<open>tuple[]\<close>: the offset of the array (32), its length, and
  the tuples.\<close>

definition encodeLockArray :: "(string \<times> string \<times> int) list \<Rightarrow> jsError + byte list" where
  "encodeLockArray ts =
     bindE (mapE encodeLock ts) (\<lambda>ws.
     Inr (be_bytes 32 32 @ be_bytes 32 (length ts) @ concat ws))"

definition falsy :: "string option \<Rightarrow> bool" where
  "falsy v = (v = None \<or> v = Some [])"

definition batchTypeString :: string where
  "batchTypeString =
     ''BatchCompact(address arbiter,address sponsor,uint256 nonce,uint256 expires,Lock[] commitments)Lock(bytes12 lockTag,address token,uint256 amount)''"

definition batchWitnessTypeString :: "string \<Rightarrow> string" where
  "batchWitnessTypeString witnessTypeString =
     ''BatchCompact(address arbiter,address sponsor,uint256 nonce,uint256 expires,Lock[] commitments,Mandate mandate)Lock(bytes12 lockTag,address token,uint256 amount)Mandate(''
     @ witnessTypeString @ '')''"

definition generateBatchClaimHash :: "keccak \<Rightarrow> ValidatedBatchCompactMessage \<Rightarrow> jsError + hash" where
  "generateBatchClaimHash kec compact =
     bindE (orThrow InvalidAddressError (getAddress (vb_arbiter compact))) (\<lambda>normalizedArbiter.
     bindE (orThrow InvalidAddressError (getAddress (vb_sponsor compact))) (\<lambda>normalizedSponsor.
     bindE (sortCommitments (vb_commitments compact)) (\<lambda>sortedCommitments.
     bindE (mapE prepareBatchLock sortedCommitments) (\<lambda>prepared.
     bindE (encodeLockArray prepared) (\<lambda>encodedCommitments.
     (let commitmentsHash = kec encodedCommitments in
      if falsy (vb_witnessTypeString compact) \<or> falsy (vb_witnessHash compact)
      then
        (let typeHash = kec (encodePackedString batchTypeString) in
         bindE (encodeAddress normalizedArbiter) (\<lambda>w1.
         bindE (encodeAddress normalizedSponsor) (\<lambda>w2.
         bindE (encodeUint256 (vb_nonce compact)) (\<lambda>w3.
         bindE (encodeUint256 (vb_expires compact)) (\<lambda>w4.
         Inr (kec (encodeHash typeHash @ w1 @ w2 @ w3 @ w4 @ encodeHash commitmentsHash)))))))
      else
        (case (vb_witnessTypeString compact, vb_witnessHash compact) of
           (Some witnessTypeString, Some witnessHash) \<Rightarrow>
             (let typeHash = kec (encodePackedString (batchWitnessTypeString witnessTypeString)) in
              bindE (encodeAddress normalizedArbiter) (\<lambda>w1.
              bindE (encodeAddress normalizedSponsor) (\<lambda>w2.
              bindE (encodeUint256 (vb_nonce compact)) (\<lambda>w3.
              bindE (encodeUint256 (vb_expires compact)) (\<lambda>w4.
              bindE (encodeBytes32 witnessHash) (\<lambda>w5.
              Inr (kec (encodeHash typeHash @ w1 @ w2 @ w3 @ w4
                          @ encodeHash commitmentsHash @ w5))))))))
         | _ \<Rightarrow> Inl AbiEncodingError)))))))"

subsection \<open>\<open>generateMultichainClaimHash\<close>\<close>

text \<open>String concatenation with an absent (\<open>undefined\<close>) optional argument prints it as
  the text \<open>undefined\<close>.\<close>

definition concatUndefined :: "string option \<Rightarrow> string" where
  "concatUndefined v = (case v of None \<Rightarrow> ''undefined'' | Some w \<Rightarrow> w)"

definition elementTypeString :: "string option \<Rightarrow> string" where
  "elementTypeString witnessTypeString =
     ''Element(address arbiter,uint256 chainId,Lock[] commitments,Mandate mandate)Lock(bytes12 lockTag,address token,uint256 amount)Mandate(''
     @ concatUndefined witnessTypeString @ '')''"

definition multichainTypeString :: "string option \<Rightarrow> string" where
  "multichainTypeString witnessTypeString =
     ''MultichainCompact(address sponsor,uint256 nonce,uint256 expires,Element[] elements)Element(address arbiter,uint256 chainId,Lock[] commitments,Mandate mandate)Lock(bytes12 lockTag,address token,uint256 amount)Mandate(''
     @ (if falsy witnessTypeString then ''bytes data'' else concatUndefined witnessTypeString)
     @ '')''"

text \<open>In the multichain path the lock tag is passed to the encoder as it is.\<close>

definition prepareElementLock :: "Lock \<Rightarrow> jsError + (string \<times> string \<times> int)" where
  "prepareElementLock c =
     bindE (orThrow InvalidAddressError (getAddress (token c))) (\<lambda>tok.
     bindE (orThrow SyntaxError (BigInt (amount c))) (\<lambda>amt.
     Inr (lockTag c, tok, amt)))"

text \<open>The bytes hashed for one element:
  \<open>(elementTypeHash, arbiter, chainId, commitmentsHash, witnessHash)\<close>.\<close>

definition elementEncoding :: "keccak \<Rightarrow> hash \<Rightarrow> ValidatedElement \<Rightarrow> jsError + byte list" where
  "elementEncoding kec elementTypeHash element =
     bindE (sortCommitments (ve_commitments element)) (\<lambda>sortedCommitments.
     bindE (mapE prepareElementLock sortedCommitments) (\<lambda>prepared.
     bindE (encodeLockArray prepared) (\<lambda>encodedCommitments.
     (let commitmentsHash = kec encodedCommitments in
      bindE (orThrow InvalidAddressError (getAddress (ve_arbiter element))) (\<lambda>arbiter.
      bindE (encodeAddress arbiter) (\<lambda>w1.
      bindE (encodeUint256 (ve_chainId element)) (\<lambda>w2.
      bindE (encodeBytes32 (ve_witnessHash element)) (\<lambda>w4.
      Inr (encodeHash elementTypeHash @ w1 @ w2 @ encodeHash commitmentsHash @ w4)))))))))"

definition elementHash :: "keccak \<Rightarrow> hash \<Rightarrow> ValidatedElement \<Rightarrow> jsError + hash" where
  "elementHash kec elementTypeHash element =
     bindE (elementEncoding kec elementTypeHash element) (\<lambda>encoded. Inr (kec encoded))"

text \<open>A single parameter of type \<open>bytes32[]\<close>: offset, length, the hashes in order.\<close>

definition encodeHashArray :: "hash list \<Rightarrow> byte list" where
  "encodeHashArray hs = be_bytes 32 32 @ be_bytes 32 (length hs) @ concat (map encodeHash hs)"

text \<open>The bytes of the final hash: \<open>(typeHash, sponsor, nonce, expires, elementsHash)\<close>.\<close>

definition multichainEncoding ::
  "hash \<Rightarrow> string \<Rightarrow> int \<Rightarrow> int \<Rightarrow> hash \<Rightarrow> jsError + byte list" where
  "multichainEncoding typeHash normalizedSponsor nonce expires elementsHash =
     bindE (encodeAddress normalizedSponsor) (\<lambda>w1.
     bindE (encodeUint256 nonce) (\<lambda>w2.
     bindE (encodeUint256 expires) (\<lambda>w3.
     Inr (encodeHash typeHash @ w1 @ w2 @ w3 @ encodeHash elementsHash))))"

text \<open>\<open>notarizedChainId\<close> is a parameter of the function that its body never reads.\<close>

definition generateMultichainClaimHash ::
  "keccak \<Rightarrow> ValidatedMultichainCompactMessage \<Rightarrow> int \<Rightarrow> string option \<Rightarrow> jsError + hash" where
  "generateMultichainClaimHash kec compact notarizedChainId witnessTypeString =
     bindE (orThrow InvalidAddressError (getAddress (vm_sponsor compact))) (\<lambda>normalizedSponsor.
     (let elementTypeHash = kec (encodePackedString (elementTypeString witnessTypeString)) in
      bindE (mapE (elementHash kec elementTypeHash) (vm_elements compact)) (\<lambda>elementsHashes.
      (let elementsHash = kec (encodeHashArray elementsHashes);
           typeHash = kec (encodePackedString (multichainTypeString witnessTypeString))
       in bindE (multichainEncoding typeHash normalizedSponsor (vm_nonce compact)
                   (vm_expires compact) elementsHash) (\<lambda>encoded.
          Inr (kec encoded))))))"

subsection \<open>The bytes that are hashed\<close>

text \<open>
  The byte string of the last \<open>keccak256\<close> call of \<open>generateMultichainClaimHash\<close>, and
  when keccak-256 does not collide on two byte strings. Both are used to state that the
  order of the elements reaches the claim hash.
\<close>

definition claimPreimage ::
  "keccak \<Rightarrow> ValidatedMultichainCompactMessage \<Rightarrow> string option \<Rightarrow> jsError + byte list" where
  "claimPreimage kec compact witnessTypeString =
     bindE (orThrow InvalidAddressError (getAddress (vm_sponsor compact))) (\<lambda>normalizedSponsor.
     bindE (mapE (elementHash kec (kec (encodePackedString (elementTypeString witnessTypeString))))
              (vm_elements compact)) (\<lambda>elementsHashes.
     multichainEncoding (kec (encodePackedString (multichainTypeString witnessTypeString)))
       normalizedSponsor (vm_nonce compact) (vm_expires compact)
       (kec (encodeHashArray elementsHashes))))"

definition noCollision :: "keccak \<Rightarrow> byte list \<Rightarrow> byte list \<Rightarrow> bool" where
  "noCollision kec a b = (kec a = kec b \<longrightarrow> a = b)"

subsection \<open>Validated batch compacts\<close>

text \<open>
  What \<open>validateBatchStructure\<close> has established about a compact it returns, read by the
  hash builder: the lock tag matches the pattern, the token is an address, and the amount
  is a positive \<open>uint256\<close> in decimal (the rendering of what \<open>toPositiveBigInt\<close> returned,
  which the specification describes as a positive uint256).
\<close>

definition validLock :: "Lock \<Rightarrow> bool" where
  "validLock c =
     (matchesLockTag (lockTag c) \<and> isAddress (token c) \<and>
      (case BigInt (amount c) of None \<Rightarrow> False | Some a \<Rightarrow> 0 < a \<and> a < 2 ^ 256))"

definition validatedBatch :: "ValidatedBatchCompactMessage \<Rightarrow> bool" where
  "validatedBatch c =
     (isAddress (vb_arbiter c) \<and> isAddress (vb_sponsor c) \<and>
      0 < vb_nonce c \<and> vb_nonce c < 2 ^ 256 \<and> 0 < vb_expires c \<and> vb_expires c < 2 ^ 256 \<and>
      vb_commitments c \<noteq> [] \<and> list_all validLock (vb_commitments c) \<and>
      \<not> witnessInconsistent (vb_witnessTypeString c) (vb_witnessHash c))"

text \<open>The validators do not look inside \<open>witnessHash\<close>; the encoder needs 32 bytes.\<close>

definition witnessHashOk :: "ValidatedBatchCompactMessage \<Rightarrow> bool" where
  "witnessHashOk c =
     (case vb_witnessHash c of None \<Rightarrow> True | Some h \<Rightarrow> h = [] \<or> \<not> isl (encodeBytes32 h))"

text \<open>The (lockTag, token) pair of a commitment, as the numbers the strings denote.\<close>

definition lockPair :: "Lock \<Rightarrow> int option \<times> int option" where
  "lockPair c = (BigInt (lockTag c), BigInt (token c))"

text \<open>What the \<open>map\<close> callback returns on a valid commitment (used in the proofs).\<close>

definition preparedOf :: "Lock \<Rightarrow> string \<times> string \<times> int" where
  "preparedOf c = (lockTag c, token c, the (BigInt (amount c)))"

section \<open>Example inputs\<close>

text \<open>The sponsor, lock tag (allocator id 1, reset period 7, scope 0), token and chain of
  the repository's allocation tests.\<close>

definition exSponsor :: string where
  "exSponsor = ''0xf39Fd6e51aad88F6F4ce6aB8827279cffFb92266''"

definition exCompact :: "string \<Rightarrow> ValidatedCompactMessage" where
  "exCompact amt =
     \<lparr>vc_arbiter = ''0x70997970C51812dc3A010C7d01b50e0d17dc79C8'',
      vc_sponsor = exSponsor,
      vc_nonce = push_bit 96 0xf39Fd6e51aad88F6F4ce6aB8827279cffFb92266,
      vc_expires = 1696352400,
      vc_id = push_bit 160 0x700000000000000000000001 OR 1,
      vc_amount = amt,
      vc_witnessTypeString = None,
      vc_witnessHash = None\<rparr>"

definition exDetails :: CompactDetails where
  "exDetails =
     \<lparr>resourceLocks = [\<lparr>withdrawalStatus = 0, balance = ''2500000000000000000''\<rparr>],
      accountDeltas = [''500000000000000000''],
      claims = []\<rparr>"

definition exIndexer :: indexer where
  "exIndexer sponsor lockId chainId = Some exDetails"

definition exChain :: "string \<Rightarrow> SupportedChain" where
  "exChain allocatorId = \<lparr>sc_chainId = ''10'', sc_allocatorId = allocatorId\<rparr>"

definition exStore :: allocatedStore where
  "exStore sponsor chainId lockId settled = Some 1500000000000000000"

definition exLock :: Lock where
  "exLock = \<lparr>lockTag = ''0x700000000000000000000001'',
             token = ''0x0000000000000000000000000000000000000001'',
             amount = ''500000000000000000''\<rparr>"

text \<open>
  Modelled from the spec: \<open>toPositiveBigInt\<close> (utils/encoding.ts) is not among the
  sources; the specification says that amounts, nonces, ids and expirations "parse as
  positive uint256 from decimal or 0x hex". Used for the example inputs only.
\<close>

definition toPositiveBigIntSpec :: encoding where
  "toPositiveBigIntSpec s =
     (case BigInt s of
        None \<Rightarrow> None
      | Some v \<Rightarrow> if 0 < v \<and> v < 2 ^ 256 then Some v else None)"

definition exMessage :: "string option \<Rightarrow> string option \<Rightarrow> CompactMessage" where
  "exMessage wts wh =
     \<lparr>cm_arbiter = ''0x70997970C51812dc3A010C7d01b50e0d17dc79C8'',
      cm_sponsor = exSponsor,
      cm_nonce = Some ''0x1'',
      cm_expires = ''1696352400'',
      cm_id = ''0x1'',
      cm_amount = ''1000000000000000000'',
      cm_witnessTypeString = wts,
      cm_witnessHash = wh\<rparr>"

definition exBatchMessage :: "string option \<Rightarrow> string option \<Rightarrow> BatchCompactMessage" where
  "exBatchMessage wts wh =
     \<lparr>bm_arbiter = ''0x70997970C51812dc3A010C7d01b50e0d17dc79C8'',
      bm_sponsor = exSponsor,
      bm_nonce = Some ''0x1'',
      bm_expires = ''1696352400'',
      bm_commitments = [exLock],
      bm_witnessTypeString = wts,
      bm_witnessHash = wh\<rparr>"

definition exWitnessHash :: string where
  "exWitnessHash = ''0x0000000000000000000000000000000000000000000000000000000000000011''"

text \<open>A multichain compact with a single element on chain 137.\<close>

definition exMultichainMessage :: MultichainCompactMessage where
  "exMultichainMessage =
     \<lparr>mm_sponsor = exSponsor,
      mm_nonce = Some ''0x1'',
      mm_expires = ''1696352400'',
      mm_elements =
        [\<lparr>el_arbiter = ''0x70997970C51812dc3A010C7d01b50e0d17dc79C8'',
          el_chainId = ''137'',
          el_commitments = [exLock],
          el_witnessHash = exWitnessHash\<rparr>],
      mm_witnessTypeString = ''uint256 witnessArgument''\<rparr>"

definition exValidatedMultichain :: ValidatedMultichainCompactMessage where
  "exValidatedMultichain =
     \<lparr>vm_sponsor = exSponsor,
      vm_nonce = 1,
      vm_expires = 1696352400,
      vm_elements =
        [\<lparr>ve_arbiter = ''0x70997970C51812dc3A010C7d01b50e0d17dc79C8'',
          ve_chainId = 137,
          ve_commitments = [exLock],
          ve_witnessHash = exWitnessHash\<rparr>],
      vm_witnessTypeString = ''uint256 witnessArgument''\<rparr>"

definition exNonceService :: "int \<Rightarrow> string \<Rightarrow> string \<Rightarrow> ValidationResult" where
  "exNonceService nonce sponsor chainId = Valid"

text \<open>The chain ids of the examples: each is a positive number that prints back as
  itself, so the chain id test of the validators accepts it.\<close>

definition exChainIdFormatOk :: "string \<Rightarrow> bool" where
  "exChainIdFormatOk chainId = (chainId = ''1'' \<or> chainId = ''10'' \<or> chainId = ''137'')"

text \<open>Chain 137 configured with the allocator id that the batch and multichain paths
  read from the example lock tag.\<close>

definition exChain137 :: SupportedChain where
  "exChain137 = \<lparr>sc_chainId = ''137'', sc_allocatorId = ''2166395068749415481073467392''\<rparr>"

text \<open>
  A concrete function in the place of keccak-256 for the closed examples: the bytes read
  as a big-endian number, modulo \<open>2^256\<close>. The theorems hold for every function \<open>kec\<close>;
  an example needs one that is defined.
\<close>

definition be_nat :: "byte list \<Rightarrow> nat" where
  "be_nat bs = foldl (\<lambda>acc b. acc * 256 + unat b) 0 bs"

definition exKeccak :: keccak where
  "exKeccak bs = word_of_nat (be_nat bs)"

text \<open>The batch compact of the repository's signature tests, on given commitments.\<close>

definition exBatch :: "Lock list \<Rightarrow> ValidatedBatchCompactMessage" where
  "exBatch cs =
     \<lparr>vb_arbiter = ''0x0000000000000000000000000000000000000001'',
      vb_sponsor = ''0x0000000000000000000000000000000000000002'',
      vb_nonce = 1,
      vb_expires = 1696352400,
      vb_commitments = cs,
      vb_witnessTypeString = None,
      vb_witnessHash = None\<rparr>"

definition exLockA :: "string \<Rightarrow> Lock" where
  "exLockA amt = \<lparr>lockTag = ''0x000000000000000000000001'',
                 token = ''0x0000000000000000000000000000000000000003'',
                 amount = amt\<rparr>"

definition exLockB :: Lock where
  "exLockB = \<lparr>lockTag = ''0x000000000000000000000002'',
              token = ''0x0000000000000000000000000000000000000004'',
              amount = ''2000000000000000000''\<rparr>"

text \<open>The same two locks with tags \<open>..0a\<close> and \<open>..02\<close>, spelled with or without the prefix.\<close>

definition exTagged :: "string \<Rightarrow> Lock list" where
  "exTagged prefix =
     [\<lparr>lockTag = prefix @ ''00000000000000000000000a'',
       token = ''0x0000000000000000000000000000000000000003'',
       amount = ''1000000000000000000''\<rparr>,
      \<lparr>lockTag = prefix @ ''000000000000000000000002'',
       token = ''0x0000000000000000000000000000000000000004'',
       amount = ''2000000000000000000''\<rparr>]"

text \<open>A multichain compact with two elements, on chains 137 and 10, each with its own
  witness hash.\<close>

definition exElement :: "int \<Rightarrow> string \<Rightarrow> ValidatedElement" where
  "exElement chain wh =
     \<lparr>ve_arbiter = ''0x70997970C51812dc3A010C7d01b50e0d17dc79C8'',
      ve_chainId = chain,
      ve_commitments = [exLock],
      ve_witnessHash = wh\<rparr>"

definition exWitnessHash2 :: string where
  "exWitnessHash2 = ''0x0000000000000000000000000000000000000000000000000000000000000022''"

definition exTwoElements :: "ValidatedElement list \<Rightarrow> ValidatedMultichainCompactMessage" where
  "exTwoElements es =
     \<lparr>vm_sponsor = exSponsor,
      vm_nonce = 1,
      vm_expires = 1696352400,
      vm_elements = es,
      vm_witnessTypeString = ''uint256 witnessArgument''\<rparr>"

definition exRawBatch :: "Lock list \<Rightarrow> BatchCompactMessage" where
  "exRawBatch cs =
     \<lparr>bm_arbiter = ''0x0000000000000000000000000000000000000001'',
      bm_sponsor = ''0x0000000000000000000000000000000000000002'',
      bm_nonce = Some ''0x1'',
      bm_expires = ''1696352400'',
      bm_commitments = cs,
      bm_witnessTypeString = None,
      bm_witnessHash = None\<rparr>"

section \<open>Evaluation of the primitives on literals\<close>

lemmas BigInt_eval = BigInt_def trim_def isWhiteSpace_def parseNat_def digitVal_def

lemmas getAddress_eval = getAddress_def isAddress_def isHexDigit_def digitVal_def

lemma mask92: "push_bit 92 (1::int) - 1 = 2 ^ 92 - 1"
  by (simp add: push_bit_eq_mult)

lemma BigInt_1: "BigInt ''1'' = Some 1"
  by (simp add: BigInt_eval)

lemma BigInt_2e18: "BigInt ''2500000000000000000'' = Some 2500000000000000000"
  by (simp add: BigInt_eval)

lemma BigInt_5e17: "BigInt ''500000000000000000'' = Some 500000000000000000"
  by (simp add: BigInt_eval)

lemma BigInt_1e18: "BigInt ''1000000000000000000'' = Some 1000000000000000000"
  by (simp add: BigInt_eval)

lemma BigInt_exTag: "BigInt ''0x700000000000000000000001'' = Some 0x700000000000000000000001"
  by (simp add: BigInt_eval)

lemma BigInt_exToken: "BigInt ''0x0000000000000000000000000000000000000001'' = Some 1"
  by (simp add: BigInt_eval)

lemma getAddress_exSponsor: "getAddress exSponsor = Some exSponsor"
  by (simp add: getAddress_eval exSponsor_def)

lemma exCompact_allocatorId: "drop_bit 160 (vc_id (exCompact a)) AND (2 ^ 92 - 1) = (1 :: int)"
  by (simp add: exCompact_def)

section \<open>The expiration window\<close>

text \<open>
  C6: \<open>validateExpiration\<close> accepts \<open>expires\<close> exactly when \<open>now < expires \<le> now + 7200\<close>,
  where \<open>now\<close> is the clock in whole seconds: \<open>expires \<le> now\<close> gives the expired error,
  \<open>expires > now + 7200\<close> gives the two-hour error, and \<open>expires = now + 7200\<close> is accepted.
\<close>

theorem validateExpiration_window:
  "(validateExpiration nowMs expires = Valid \<longleftrightarrow>
      nowMs div 1000 < expires \<and> expires \<le> nowMs div 1000 + 7200)
   \<and> (expires \<le> nowMs div 1000 \<longrightarrow> validateExpiration nowMs expires = Invalid CompactHasExpired)
   \<and> (expires > nowMs div 1000 + 7200 \<longrightarrow>
        validateExpiration nowMs expires = Invalid ExpirationMustBeWithin2Hours)
   \<and> validateExpiration nowMs (nowMs div 1000 + 7200) = Valid"
  by (simp add: validateExpiration_def Let_def)

theorem validateExpiration_window_witness:
  "validateExpiration 1696348800999 1696348800 = Invalid CompactHasExpired
   \<and> validateExpiration 1696348800999 1696356001 = Invalid ExpirationMustBeWithin2Hours
   \<and> validateExpiration 1696348800999 1696356000 = Valid
   \<and> validateExpiration 1696348800999 1696348801 = Valid"
  using validateExpiration_window [of 1696348800999 1696348800]
        validateExpiration_window [of 1696348800999 1696356001]
        validateExpiration_window [of 1696348800999 1696356000]
        validateExpiration_window [of 1696348800999 1696348801]
  by simp

section \<open>Facts about the example inputs\<close>

lemma ex_indexer:
  "exIndexer (vc_sponsor (exCompact amt)) (vc_id (exCompact amt)) ''10'' = Some exDetails"
  by (simp add: exIndexer_def)

lemma ex_locks:
  "resourceLocks exDetails = \<lparr>withdrawalStatus = 0, balance = ''2500000000000000000''\<rparr> # []"
  by (simp add: exDetails_def)

lemma ex_status:
  "withdrawalStatus \<lparr>withdrawalStatus = 0, balance = ''2500000000000000000''\<rparr> = 0"
  by simp

lemma ex_findChain: "findChain (Some [exChain a]) ''10'' = Some (exChain a)"
  by (simp add: findChain_def exChain_def)

lemma ex_deltas: "map BigInt (accountDeltas exDetails) = map Some [500000000000000000]"
  by (simp add: exDetails_def BigInt_5e17)

lemma ex_balance:
  "BigInt (balance \<lparr>withdrawalStatus = 0, balance = ''2500000000000000000''\<rparr>)
     = Some 2500000000000000000"
  by (simp add: BigInt_2e18)

lemma ex_sponsor: "getAddress (vc_sponsor (exCompact amt)) = Some exSponsor"
  by (simp add: exCompact_def getAddress_exSponsor)

lemma ex_store:
  "exStore (toLowerCase exSponsor) chainId lockId
     (claims exDetails) = Some 1500000000000000000"
  by (simp add: exStore_def)

lemma ex_amount_1e18:
  "BigInt (vc_amount (exCompact ''1000000000000000000'')) = Some 1000000000000000000"
  by (simp add: exCompact_def BigInt_1e18)

lemma ex_amount_5e17:
  "BigInt (vc_amount (exCompact ''500000000000000000'')) = Some 500000000000000000"
  by (simp add: exCompact_def BigInt_5e17)

section \<open>The balance check\<close>

lemma sumDeltas_Some:
  "map BigInt ds = map Some vs \<Longrightarrow> sumDeltas acc ds = Some (acc + sum_list vs)"
proof (induction ds arbitrary: acc vs)
  case Nil
  then show ?case by simp
next
  case (Cons d ds)
  then obtain v vs' where vs: "vs = v # vs'" "BigInt d = Some v" "map BigInt ds = map Some vs'"
    by (cases vs) auto
  with Cons.IH [of vs' "acc + v"] show ?case by (simp add: add.assoc)
qed

lemma checkBalance_eq:
  assumes "map BigInt (accountDeltas response) = map Some deltas"
    and "BigInt (balance resourceLock) = Some bal"
    and "getAddress sponsor = Some sponsorAddress"
    and "getAllocatedBalance (toLowerCase sponsorAddress) chainId lockId (claims response)
           = Some outstanding"
    and "BigInt amt = Some amtValue"
  shows "checkBalance getAllocatedBalance tag response resourceLock sponsor chainId lockId amt =
     (if max 0 (bal - sum_list deltas) < outstanding + amtValue
      then Invalid (InsufficientAllocatableBalance tag (max 0 (bal - sum_list deltas))
                      (outstanding + amtValue))
      else Valid)"
proof -
  have "sumDeltas 0 (accountDeltas response) = Some (sum_list deltas)"
    using sumDeltas_Some [OF assms(1), of 0] by simp
  moreover have "allocatableBalance bal (sum_list deltas) = max 0 (bal - sum_list deltas)"
    by (simp add: allocatableBalance_def max_def)
  ultimately show ?thesis
    using assms(2-5) by (simp add: checkBalance_def Let_def)
qed

text \<open>Once the lock and allocator checks have passed, the single-compact validator is
  the balance block.\<close>

lemma validateAllocation_reaches_checkBalance:
  assumes "getCompactDetails (vc_sponsor compact) (vc_id compact) chainId = Some response"
    and "resourceLocks response = resourceLock # others"
    and "withdrawalStatus resourceLock = 0"
    and "findChain cache chainId = Some chainConfig"
    and "BigInt (sc_allocatorId chainConfig) = Some (drop_bit 160 (vc_id compact) AND (2 ^ 92 - 1))"
  shows "validateAllocation getCompactDetails cache getAllocatedBalance compact chainId =
     checkBalance getAllocatedBalance None response resourceLock (vc_sponsor compact) chainId
       (vc_id compact) (vc_amount compact)"
  using assms by (simp add: validateAllocation_def Let_def mask92)

text \<open>
  C1: in the allocation check of a (sponsor, chainId, lockId), pending is the sum of the
  indexer's account deltas, allocatable is \<open>max 0 (balance - pending)\<close>, and (the lock
  being found, not in forced withdrawal and of this allocator, and the inputs being
  readable) the result is the insufficient-balance error, reporting allocatable as
  \<open>have\<close> and outstanding + amount as \<open>need\<close>, exactly when
  \<open>allocatable < outstanding + amount\<close>; otherwise the check passes.
\<close>

theorem validateAllocation_balance_check:
  assumes "getCompactDetails (vc_sponsor compact) (vc_id compact) chainId = Some response"
    and "resourceLocks response = resourceLock # others"
    and "withdrawalStatus resourceLock = 0"
    and "findChain cache chainId = Some chainConfig"
    and "BigInt (sc_allocatorId chainConfig) = Some (drop_bit 160 (vc_id compact) AND (2 ^ 92 - 1))"
    and "map BigInt (accountDeltas response) = map Some deltas"
    and "BigInt (balance resourceLock) = Some bal"
    and "getAddress (vc_sponsor compact) = Some sponsorAddress"
    and "getAllocatedBalance (toLowerCase sponsorAddress) chainId (vc_id compact) (claims response)
           = Some outstanding"
    and "BigInt (vc_amount compact) = Some amt"
    and "pending = sum_list deltas"
    and "allocatable = max 0 (bal - pending)"
  shows "validateAllocation getCompactDetails cache getAllocatedBalance compact chainId =
     (if allocatable < outstanding + amt
      then Invalid (InsufficientAllocatableBalance None allocatable (outstanding + amt))
      else Valid)"
  using validateAllocation_reaches_checkBalance [where getCompactDetails = getCompactDetails
          and getAllocatedBalance = getAllocatedBalance, OF assms(1-5)]
        checkBalance_eq [where getAllocatedBalance = getAllocatedBalance, OF assms(6-10)]
        assms(11,12)
  by simp

theorem validateAllocation_balance_check_witness:
  "validateAllocation exIndexer (Some [exChain ''1'']) exStore (exCompact ''1000000000000000000'') ''10'' =
     Invalid (InsufficientAllocatableBalance None 2000000000000000000 2500000000000000000)
   \<and> validateAllocation exIndexer (Some [exChain ''1'']) exStore (exCompact ''500000000000000000'') ''10''
       = Valid"
proof -
  have e: "BigInt (sc_allocatorId (exChain ''1'')) =
             Some (drop_bit 160 (vc_id (exCompact amt)) AND (2 ^ 92 - 1))" for amt
    unfolding exCompact_allocatorId by (simp add: exChain_def BigInt_1)
  show ?thesis
    using validateAllocation_balance_check [where getCompactDetails = exIndexer
            and getAllocatedBalance = exStore and compact = "exCompact ''1000000000000000000''",
            OF ex_indexer ex_locks ex_status ex_findChain e ex_deltas ex_balance ex_sponsor
               ex_store ex_amount_1e18 refl refl]
          validateAllocation_balance_check [where getCompactDetails = exIndexer
            and getAllocatedBalance = exStore and compact = "exCompact ''500000000000000000''",
            OF ex_indexer ex_locks ex_status ex_findChain e ex_deltas ex_balance ex_sponsor
               ex_store ex_amount_5e17 refl refl]
    by simp
qed

text \<open>The same holds of each commitment on the batch and multichain paths, where the
  error also names the lock tag.\<close>

lemma checkCommitment_balance_check:
  assumes "BigInt (token commitment) = Some tokenValue"
    and "BigInt (lockTag commitment) = Some tagValue"
    and "BigInt (sc_allocatorId chainConfig) = Some (drop_bit 4 tagValue AND (2 ^ 92 - 1))"
    and "getCompactDetails sponsor (push_bit 160 tagValue OR tokenValue) chainId = Some response"
    and "resourceLocks response = resourceLock # others"
    and "withdrawalStatus resourceLock = 0"
    and "map BigInt (accountDeltas response) = map Some deltas"
    and "BigInt (balance resourceLock) = Some bal"
    and "getAddress sponsor = Some sponsorAddress"
    and "getAllocatedBalance (toLowerCase sponsorAddress) chainId
           (push_bit 160 tagValue OR tokenValue) (claims response) = Some outstanding"
    and "BigInt (amount commitment) = Some amt"
  shows "checkCommitment getCompactDetails getAllocatedBalance chainConfig sponsor chainId commitment =
     (if max 0 (bal - sum_list deltas) < outstanding + amt
      then Invalid (InsufficientAllocatableBalance (Some (lockTag commitment))
                      (max 0 (bal - sum_list deltas)) (outstanding + amt))
      else Valid)"
  using assms(1-6)
        checkBalance_eq [where getAllocatedBalance = getAllocatedBalance
          and tag = "Some (lockTag commitment)", OF assms(7-11)]
  by (simp add: checkCommitment_def buildLockId_def Let_def mask92)

section \<open>The allocator id\<close>






lemma BigInt_shifted: "BigInt ''2166395068749415481073467392'' = Some 2166395068749415481073467392"
  by (simp add: BigInt_eval)



text \<open>The loops over commitments return the error of the first commitment that fails.\<close>

lemma checkCommitments_first_failure:
  "checkCommitments ix st cfg sponsor chainId cs = Invalid e \<longleftrightarrow>
     (\<exists>pre c post. cs = pre @ c # post
        \<and> (\<forall>p\<in>set pre. checkCommitment ix st cfg sponsor chainId p = Valid)
        \<and> checkCommitment ix st cfg sponsor chainId c = Invalid e)"
proof (induction cs)
  case Nil
  then show ?case by simp
next
  case (Cons a cs)
  show ?case
  proof (cases "checkCommitment ix st cfg sponsor chainId a")
    case Valid
    have "(\<exists>pre c post. a # cs = pre @ c # post
            \<and> (\<forall>p\<in>set pre. checkCommitment ix st cfg sponsor chainId p = Valid)
            \<and> checkCommitment ix st cfg sponsor chainId c = Invalid e)
       \<longleftrightarrow> (\<exists>pre c post. cs = pre @ c # post
            \<and> (\<forall>p\<in>set pre. checkCommitment ix st cfg sponsor chainId p = Valid)
            \<and> checkCommitment ix st cfg sponsor chainId c = Invalid e)" (is "?L \<longleftrightarrow> ?R")
    proof
      assume ?L
      then obtain pre c post where p: "a # cs = pre @ c # post"
          "\<forall>p\<in>set pre. checkCommitment ix st cfg sponsor chainId p = Valid"
          "checkCommitment ix st cfg sponsor chainId c = Invalid e" by blast
      with Valid obtain pre' where "pre = a # pre'" by (cases pre) auto
      with p show ?R by auto
    next
      assume ?R
      then obtain pre c post where p: "cs = pre @ c # post"
          "\<forall>p\<in>set pre. checkCommitment ix st cfg sponsor chainId p = Valid"
          "checkCommitment ix st cfg sponsor chainId c = Invalid e" by blast
      then have "a # cs = (a # pre) @ c # post"
          "\<forall>p\<in>set (a # pre). checkCommitment ix st cfg sponsor chainId p = Valid"
        using Valid by auto
      with p(3) show ?L by blast
    qed
    with Valid Cons.IH show ?thesis by simp
  next
    case (Invalid e')
    have "(\<exists>pre c post. a # cs = pre @ c # post
            \<and> (\<forall>p\<in>set pre. checkCommitment ix st cfg sponsor chainId p = Valid)
            \<and> checkCommitment ix st cfg sponsor chainId c = Invalid e) \<longleftrightarrow> e' = e"
    proof
      assume "\<exists>pre c post. a # cs = pre @ c # post
            \<and> (\<forall>p\<in>set pre. checkCommitment ix st cfg sponsor chainId p = Valid)
            \<and> checkCommitment ix st cfg sponsor chainId c = Invalid e"
      then obtain pre c post where p: "a # cs = pre @ c # post"
          "\<forall>p\<in>set pre. checkCommitment ix st cfg sponsor chainId p = Valid"
          "checkCommitment ix st cfg sponsor chainId c = Invalid e" by blast
      show "e' = e"
      proof (cases pre)
        case Nil
        with p Invalid show ?thesis by simp
      next
        case (Cons x xs)
        with p Invalid show ?thesis by auto
      qed
    next
      assume "e' = e"
      with Invalid have "a # cs = [] @ a # cs \<and>
          (\<forall>p\<in>set []. checkCommitment ix st cfg sponsor chainId p = Valid) \<and>
          checkCommitment ix st cfg sponsor chainId a = Invalid e" by simp
      then show "\<exists>pre c post. a # cs = pre @ c # post
            \<and> (\<forall>p\<in>set pre. checkCommitment ix st cfg sponsor chainId p = Valid)
            \<and> checkCommitment ix st cfg sponsor chainId c = Invalid e" by blast
    qed
    with Invalid show ?thesis by simp
  qed
qed

section \<open>Witness consistency\<close>

lemma witnessInconsistent_iff:
  "witnessInconsistent wts wh \<longleftrightarrow> (wts = None) \<noteq> (wh = None)"
  by (auto simp: witnessInconsistent_def)

lemma validateStructure_witness:
  "witnessInconsistent (cm_witnessTypeString c) (cm_witnessHash c) \<Longrightarrow>
   isl (validateStructure toPositiveBigInt c)"
  by (simp add: validateStructure_def Let_def split: option.splits)

lemma validateBatchStructure_witness:
  "witnessInconsistent (bm_witnessTypeString b) (bm_witnessHash b) \<Longrightarrow>
   isl (validateBatchStructure toPositiveBigInt b)"
  by (simp add: validateBatchStructure_def Let_def split: option.splits sum.splits)

lemma validateStructure_reaches_witness:
  assumes "getAddress (cm_arbiter c) \<noteq> None" "getAddress (cm_sponsor c) \<noteq> None"
    and "toPositiveBigInt (cm_id c) \<noteq> None" "toPositiveBigInt (cm_expires c) \<noteq> None"
    and "toPositiveBigInt (cm_amount c) \<noteq> None"
    and "cm_nonce c = Some nonceString" "toPositiveBigInt nonceString \<noteq> None"
  shows "isl (validateStructure toPositiveBigInt c)
           = witnessInconsistent (cm_witnessTypeString c) (cm_witnessHash c)"
  using assms by (auto simp: validateStructure_def Let_def split: if_splits)

lemma validateBatchStructure_reaches_witness:
  assumes "getAddress (bm_arbiter b) \<noteq> None" "getAddress (bm_sponsor b) \<noteq> None"
    and "bm_nonce b = Some nonceString" "toPositiveBigInt nonceString \<noteq> None"
    and "toPositiveBigInt (bm_expires b) \<noteq> None"
    and "bm_commitments b \<noteq> []"
    and "\<not> isl (validateCommitments toPositiveBigInt (bm_commitments b))"
  shows "isl (validateBatchStructure toPositiveBigInt b)
           = witnessInconsistent (bm_witnessTypeString b) (bm_witnessHash b)"
  using assms by (auto simp: validateBatchStructure_def Let_def split: sum.splits if_splits)

text \<open>
  C7: for a single compact and for a batch compact, structural validation fails (its
  result is an error, \<open>isValid: false\<close>) whenever exactly one of \<open>witnessTypeString\<close> and
  \<open>witnessHash\<close> is null; and once the checks before it have passed, the witness check,
  and with it the validation, passes exactly when both are present or both are null.
\<close>

theorem witness_consistency:
  "((cm_witnessTypeString c = None) \<noteq> (cm_witnessHash c = None) \<longrightarrow>
      isl (validateStructure toPositiveBigInt c))
   \<and> ((bm_witnessTypeString b = None) \<noteq> (bm_witnessHash b = None) \<longrightarrow>
      isl (validateBatchStructure toPositiveBigInt b))
   \<and> (getAddress (cm_arbiter c) \<noteq> None \<longrightarrow> getAddress (cm_sponsor c) \<noteq> None \<longrightarrow>
      toPositiveBigInt (cm_id c) \<noteq> None \<longrightarrow> toPositiveBigInt (cm_expires c) \<noteq> None \<longrightarrow>
      toPositiveBigInt (cm_amount c) \<noteq> None \<longrightarrow>
      cm_nonce c = Some nonceString \<longrightarrow> toPositiveBigInt nonceString \<noteq> None \<longrightarrow>
      (\<not> isl (validateStructure toPositiveBigInt c))
        = ((cm_witnessTypeString c = None) = (cm_witnessHash c = None)))
   \<and> (getAddress (bm_arbiter b) \<noteq> None \<longrightarrow> getAddress (bm_sponsor b) \<noteq> None \<longrightarrow>
      bm_nonce b = Some batchNonceString \<longrightarrow> toPositiveBigInt batchNonceString \<noteq> None \<longrightarrow>
      toPositiveBigInt (bm_expires b) \<noteq> None \<longrightarrow>
      bm_commitments b \<noteq> [] \<longrightarrow>
      \<not> isl (validateCommitments toPositiveBigInt (bm_commitments b)) \<longrightarrow>
      (\<not> isl (validateBatchStructure toPositiveBigInt b))
        = ((bm_witnessTypeString b = None) = (bm_witnessHash b = None)))"
  using validateStructure_witness [of c toPositiveBigInt]
        validateBatchStructure_witness [of b toPositiveBigInt]
        validateStructure_reaches_witness [of c toPositiveBigInt nonceString]
        validateBatchStructure_reaches_witness [of b batchNonceString toPositiveBigInt]
  by (simp add: witnessInconsistent_iff)

lemma toPositiveBigIntSpec_0x1: "toPositiveBigIntSpec ''0x1'' = Some 1"
  by (simp add: toPositiveBigIntSpec_def BigInt_eval)

lemma toPositiveBigIntSpec_expires: "toPositiveBigIntSpec ''1696352400'' = Some 1696352400"
  by (simp add: toPositiveBigIntSpec_def BigInt_eval)

lemma toPositiveBigIntSpec_1e18:
  "toPositiveBigIntSpec ''1000000000000000000'' = Some 1000000000000000000"
  by (simp add: toPositiveBigIntSpec_def BigInt_1e18)

lemma toPositiveBigIntSpec_5e17:
  "toPositiveBigIntSpec ''500000000000000000'' = Some 500000000000000000"
  by (simp add: toPositiveBigIntSpec_def BigInt_5e17)

lemma toPositiveBigIntSpec_137: "toPositiveBigIntSpec ''137'' = Some 137"
  by (simp add: toPositiveBigIntSpec_def BigInt_eval)

lemma getAddress_exArbiter:
  "getAddress ''0x70997970C51812dc3A010C7d01b50e0d17dc79C8'' \<noteq> None"
  by (simp add: getAddress_eval)

lemma getAddress_exToken:
  "getAddress ''0x0000000000000000000000000000000000000001'' \<noteq> None"
  by (simp add: getAddress_eval)

lemma matchesLockTag_exLock: "matchesLockTag ''0x700000000000000000000001''"
  by (simp add: matchesLockTag_def isHexDigit_def digitVal_def)

lemma validateCommitments_exLock:
  "\<not> isl (validateCommitments toPositiveBigIntSpec [exLock])"
  by (simp add: exLock_def matchesLockTag_exLock getAddress_exToken toPositiveBigIntSpec_5e17)

theorem witness_consistency_witness:
  "isl (validateStructure toPositiveBigIntSpec (exMessage (Some ''uint256 witnessArgument'') None))
   \<and> isl (validateBatchStructure toPositiveBigIntSpec (exBatchMessage None (Some exWitnessHash)))
   \<and> \<not> isl (validateStructure toPositiveBigIntSpec (exMessage None None))
   \<and> \<not> isl (validateBatchStructure toPositiveBigIntSpec
                 (exBatchMessage (Some ''uint256 witnessArgument'') (Some exWitnessHash)))"
proof -
  have s: "getAddress exSponsor \<noteq> None" by (simp add: getAddress_exSponsor)
  note w1 = witness_consistency [where toPositiveBigInt = toPositiveBigIntSpec
      and c = "exMessage (Some ''uint256 witnessArgument'') None"
      and b = "exBatchMessage None (Some exWitnessHash)"]
  note w2 = witness_consistency [where toPositiveBigInt = toPositiveBigIntSpec
      and c = "exMessage None None" and nonceString = "''0x1''"
      and b = "exBatchMessage (Some ''uint256 witnessArgument'') (Some exWitnessHash)"
      and batchNonceString = "''0x1''"]
  show ?thesis
    using w1 w2 s validateCommitments_exLock
    by (simp add: exMessage_def exBatchMessage_def getAddress_exArbiter
          toPositiveBigIntSpec_0x1 toPositiveBigIntSpec_expires toPositiveBigIntSpec_1e18)
qed

section \<open>Multichain membership\<close>

lemma validateMultichainAllocation_no_element:
  assumes "findChain cache chainId = Some chainConfig"
    and "BigInt chainId = Some chainIdValue"
    and "\<forall>element\<in>set (vm_elements compact). ve_chainId element \<noteq> chainIdValue"
  shows "validateMultichainAllocation getCompactDetails cache getAllocatedBalance compact chainId
           = Invalid (NoElementsFoundForChain chainId)"
  using assms by (simp add: validateMultichainAllocation_def Let_def filter_empty_conv)

lemma validateMultichainCompact_membership:
  assumes "chainIdFormatOk chainId"
    and "validateMultichainStructure toPositiveBigInt compact = Inr validatedCompact"
    and "validateNonce (vm_nonce validatedCompact) (vm_sponsor validatedCompact) chainId = Valid"
    and "validateExpiration nowMs (vm_expires validatedCompact) = Valid"
    and "vm_elements validatedCompact \<noteq> []"
    and "BigInt chainId = Some chainIdValue"
  shows "validateMultichainCompact chainIdFormatOk toPositiveBigInt validateNonce nowMs
           getCompactDetails cache getAllocatedBalance compact chainId =
         (if \<forall>element\<in>set (vm_elements validatedCompact). ve_chainId element \<noteq> chainIdValue
          then Inl (CurrentChainNotFound chainId)
          else (case validateMultichainAllocation getCompactDetails cache getAllocatedBalance
                       validatedCompact chainId of
                  Invalid e \<Rightarrow> Inl e
                | Valid \<Rightarrow> Inr validatedCompact))"
proof (cases "find (\<lambda>element. ve_chainId element = chainIdValue) (vm_elements validatedCompact)")
  case None
  then have "\<forall>element\<in>set (vm_elements validatedCompact). ve_chainId element \<noteq> chainIdValue"
    by (simp add: find_None_iff)
  with None assms show ?thesis
    by (simp add: validateMultichainCompact_def)
next
  case (Some currentChainElement)
  then have "\<not> (\<forall>element\<in>set (vm_elements validatedCompact). ve_chainId element \<noteq> chainIdValue)"
    by (auto simp: find_Some_iff)
  with Some assms show ?thesis
    by (auto simp: validateMultichainCompact_def)
qed

lemma validateMultichainCompact_no_element_fails:
  assumes "BigInt chainId = Some chainIdValue"
    and "validateMultichainCompact chainIdFormatOk toPositiveBigInt validateNonce nowMs
           getCompactDetails cache getAllocatedBalance compact chainId = Inr validatedCompact"
  shows "\<exists>element\<in>set (vm_elements validatedCompact). ve_chainId element = chainIdValue"
  using assms
  by (auto simp: validateMultichainCompact_def find_Some_iff
           split: if_splits sum.splits option.splits ValidationResult.splits)

text \<open>
  C8: for a multichain compact none of whose elements is on the submission chain, the
  membership check of \<open>validateMultichainCompact\<close> (reached when the chain id, structure,
  nonce and expiration checks have passed) fails with the error naming the chain, and so
  does the element filter of \<open>validateMultichainAllocation\<close> (reached when the chain is
  configured); validation goes past the membership check, to the allocation check, when
  some element is on the submission chain, and it never accepts a compact without one.
\<close>

theorem multichain_membership:
  "(chainIdFormatOk chainId \<longrightarrow>
    validateMultichainStructure toPositiveBigInt compact = Inr validatedCompact \<longrightarrow>
    validateNonce (vm_nonce validatedCompact) (vm_sponsor validatedCompact) chainId = Valid \<longrightarrow>
    validateExpiration nowMs (vm_expires validatedCompact) = Valid \<longrightarrow>
    vm_elements validatedCompact \<noteq> [] \<longrightarrow>
    BigInt chainId = Some chainIdValue \<longrightarrow>
    validateMultichainCompact chainIdFormatOk toPositiveBigInt validateNonce nowMs
      getCompactDetails cache getAllocatedBalance compact chainId =
    (if \<forall>element\<in>set (vm_elements validatedCompact). ve_chainId element \<noteq> chainIdValue
     then Inl (CurrentChainNotFound chainId)
     else (case validateMultichainAllocation getCompactDetails cache getAllocatedBalance
                  validatedCompact chainId of
             Invalid e \<Rightarrow> Inl e
           | Valid \<Rightarrow> Inr validatedCompact)))
   \<and> (BigInt chainId = Some chainIdValue \<longrightarrow>
      validateMultichainCompact chainIdFormatOk toPositiveBigInt validateNonce nowMs
        getCompactDetails cache getAllocatedBalance compact chainId = Inr accepted \<longrightarrow>
      (\<exists>element\<in>set (vm_elements accepted). ve_chainId element = chainIdValue))
   \<and> (findChain cache chainId = Some chainConfig \<longrightarrow>
      BigInt chainId = Some chainIdValue \<longrightarrow>
      (\<forall>element\<in>set (vm_elements validated). ve_chainId element \<noteq> chainIdValue) \<longrightarrow>
      validateMultichainAllocation getCompactDetails cache getAllocatedBalance validated chainId
        = Invalid (NoElementsFoundForChain chainId))"
  using validateMultichainCompact_membership [of chainIdFormatOk chainId toPositiveBigInt compact
          validatedCompact validateNonce nowMs chainIdValue getCompactDetails cache
          getAllocatedBalance]
        validateMultichainCompact_no_element_fails [of chainId chainIdValue chainIdFormatOk
          toPositiveBigInt validateNonce nowMs getCompactDetails cache getAllocatedBalance
          compact accepted]
        validateMultichainAllocation_no_element [of cache chainId chainConfig chainIdValue
          validated getCompactDetails getAllocatedBalance]
  by blast

lemma showInt_5e17: "showInt 500000000000000000 = ''500000000000000000''"
  by (simp add: showInt_def showNat.simps digitChar_def)

lemma BigInt_10: "BigInt ''10'' = Some 10"
  by (simp add: BigInt_eval)

lemma BigInt_137: "BigInt ''137'' = Some 137"
  by (simp add: BigInt_eval)

lemma ex_structure:
  "validateMultichainStructure toPositiveBigIntSpec exMultichainMessage = Inr exValidatedMultichain"
  by (simp add: validateMultichainStructure_def exMultichainMessage_def exValidatedMultichain_def
        getAddress_exSponsor getAddress_exArbiter getAddress_exToken matchesLockTag_exLock
        toPositiveBigIntSpec_0x1 toPositiveBigIntSpec_expires toPositiveBigIntSpec_137
        toPositiveBigIntSpec_5e17 showInt_5e17 exLock_def exWitnessHash_def)

lemma ex_expiration: "validateExpiration 1696348800000 (vm_expires exValidatedMultichain) = Valid"
  by (simp add: validateExpiration_def exValidatedMultichain_def)

lemma ex_checkCommitment:
  "checkCommitment exIndexer exStore exChain137 exSponsor ''137'' exLock = Valid"
proof -
  have "checkBalance exStore (Some (lockTag exLock)) exDetails
          \<lparr>withdrawalStatus = 0, balance = ''2500000000000000000''\<rparr> exSponsor ''137'' lockId
          (amount exLock) = Valid" for lockId
    using checkBalance_eq [where getAllocatedBalance = exStore and sponsor = exSponsor
            and amt = "amount exLock" and chainId = "''137''" and lockId = lockId,
            OF ex_deltas ex_balance getAddress_exSponsor ex_store]
    by (simp add: exLock_def BigInt_5e17)
  then show ?thesis
    by (simp add: checkCommitment_def buildLockId_def exChain137_def BigInt_shifted
          BigInt_exTag BigInt_exToken exIndexer_def ex_locks Let_def exLock_def)
qed

lemma ex_allocation_137:
  "validateMultichainAllocation exIndexer (Some [exChain137]) exStore exValidatedMultichain ''137''
     = Valid"
proof -
  have "findChain (Some [exChain137]) ''137'' = Some exChain137"
    by (simp add: findChain_def exChain137_def)
  then show ?thesis
    using ex_checkCommitment
    by (simp add: validateMultichainAllocation_def BigInt_137 exValidatedMultichain_def)
qed

theorem multichain_membership_witness:
  "validateMultichainCompact exChainIdFormatOk toPositiveBigIntSpec exNonceService 1696348800000
     exIndexer (Some [exChain ''1'']) exStore exMultichainMessage ''10''
     = Inl (CurrentChainNotFound ''10'')
   \<and> validateMultichainAllocation exIndexer (Some [exChain ''1'']) exStore exValidatedMultichain ''10''
     = Invalid (NoElementsFoundForChain ''10'')
   \<and> validateMultichainCompact exChainIdFormatOk toPositiveBigIntSpec exNonceService 1696348800000
     exIndexer (Some [exChain137]) exStore exMultichainMessage ''137''
     = Inr exValidatedMultichain
   \<and> (\<exists>element\<in>set (vm_elements exValidatedMultichain). ve_chainId element = 137)"
proof -
  have fmt: "exChainIdFormatOk ''10''" "exChainIdFormatOk ''137''"
    by (simp_all add: exChainIdFormatOk_def)
  have nonce: "exNonceService (vm_nonce exValidatedMultichain) (vm_sponsor exValidatedMultichain) c
                 = Valid" for c
    by (simp add: exNonceService_def)
  have ne: "vm_elements exValidatedMultichain \<noteq> []"
    by (simp add: exValidatedMultichain_def)
  have no10: "\<forall>element\<in>set (vm_elements exValidatedMultichain). ve_chainId element \<noteq> 10"
    by (simp add: exValidatedMultichain_def)
  have yes137: "\<not> (\<forall>element\<in>set (vm_elements exValidatedMultichain). ve_chainId element \<noteq> 137)"
    by (simp add: exValidatedMultichain_def)
  note m10 = multichain_membership [where chainIdFormatOk = exChainIdFormatOk
      and toPositiveBigInt = toPositiveBigIntSpec and validateNonce = exNonceService
      and nowMs = 1696348800000 and getCompactDetails = exIndexer
      and cache = "Some [exChain ''1'']" and getAllocatedBalance = exStore
      and compact = exMultichainMessage and chainId = "''10''" and chainIdValue = 10
      and validatedCompact = exValidatedMultichain and validated = exValidatedMultichain
      and chainConfig = "exChain ''1''"]
  note m137 = multichain_membership [where chainIdFormatOk = exChainIdFormatOk
      and toPositiveBigInt = toPositiveBigIntSpec and validateNonce = exNonceService
      and nowMs = 1696348800000 and getCompactDetails = exIndexer
      and cache = "Some [exChain137]" and getAllocatedBalance = exStore
      and compact = exMultichainMessage and chainId = "''137''" and chainIdValue = 137
      and validatedCompact = exValidatedMultichain and accepted = exValidatedMultichain]
  have a: "validateMultichainCompact exChainIdFormatOk toPositiveBigIntSpec exNonceService
             1696348800000 exIndexer (Some [exChain ''1'']) exStore exMultichainMessage ''10''
           = Inl (CurrentChainNotFound ''10'')"
    using m10 [THEN conjunct1] fmt ex_structure nonce ex_expiration ne no10
    by (simp add: BigInt_10)
  have b: "validateMultichainAllocation exIndexer (Some [exChain ''1'']) exStore
             exValidatedMultichain ''10'' = Invalid (NoElementsFoundForChain ''10'')"
    using m10 [THEN conjunct2, THEN conjunct2] ex_findChain [of "''1''"] no10
    by (simp add: BigInt_10)
  have c: "validateMultichainCompact exChainIdFormatOk toPositiveBigIntSpec exNonceService
             1696348800000 exIndexer (Some [exChain137]) exStore exMultichainMessage ''137''
           = Inr exValidatedMultichain"
    using m137 [THEN conjunct1] fmt ex_structure nonce ex_expiration ne yes137 ex_allocation_137
    by (simp add: BigInt_137)
  have d: "\<exists>element\<in>set (vm_elements exValidatedMultichain). ve_chainId element = 137"
    using m137 [THEN conjunct2, THEN conjunct1] c by (simp add: BigInt_137)
  from a b c d show ?thesis by simp
qed

section \<open>Reading validated strings\<close>

lemma digitVal_less_16: "digitVal c = Some d \<Longrightarrow> d < 16"
  by (auto simp: digitVal_def Let_def split: if_splits)

lemma isHexDigit_not_white: "isHexDigit c \<Longrightarrow> \<not> isWhiteSpace c"
  by (auto simp: isHexDigit_def digitVal_def isWhiteSpace_def Let_def split: if_splits)

lemma parseDigits_hex:
  "list_all isHexDigit ds \<Longrightarrow> \<exists>v. parseDigits 16 acc ds = Some v \<and> v < (acc + 1) * 16 ^ length ds"
proof (induction ds arbitrary: acc)
  case Nil
  then show ?case by simp
next
  case (Cons c ds)
  then obtain d where d: "digitVal c = Some d" "d < 16"
    by (auto simp: isHexDigit_def dest: digitVal_less_16)
  from Cons obtain v where v: "parseDigits 16 (acc * 16 + d) ds = Some v"
      "v < (acc * 16 + d + 1) * 16 ^ length ds"
    by (auto simp: list_all_iff)
  note v(2)
  also have "(acc * 16 + d + 1) * 16 ^ length ds \<le> ((acc + 1) * 16) * 16 ^ length ds"
    using d(2) by (intro mult_right_mono) auto
  also have "\<dots> = (acc + 1) * 16 ^ length (c # ds)" by (simp add: algebra_simps)
  finally show ?case using v(1) d(1) d(2) by simp
qed

lemma dropWhile_id: "xs \<noteq> [] \<Longrightarrow> \<not> P (hd xs) \<Longrightarrow> dropWhile P xs = xs"
  by (cases xs) auto

lemma trim_id:
  assumes "s \<noteq> []" "\<not> isWhiteSpace (hd s)" "\<not> isWhiteSpace (last s)"
  shows "trim s = s"
proof -
  have 1: "dropWhile isWhiteSpace s = s" using assms(1,2) by (rule dropWhile_id)
  have "rev s \<noteq> []" "\<not> isWhiteSpace (hd (rev s))" using assms(1,3) by (simp_all add: hd_rev)
  then have 2: "dropWhile isWhiteSpace (rev s) = rev s" by (rule dropWhile_id)
  show ?thesis by (simp add: trim_def 1 2)
qed

lemma BigInt_hex:
  assumes "take 2 s = ''0x''" "drop 2 s \<noteq> []" "list_all isHexDigit (drop 2 s)"
  shows "\<exists>v. parseDigits 16 0 (drop 2 s) = Some v \<and> BigInt s = Some (int v) \<and> v < 16 ^ (length s - 2)"
proof -
  obtain rest where s: "s = CHR ''0'' # CHR ''x'' # rest" "rest \<noteq> []" "list_all isHexDigit rest"
    using assms by (cases s; cases "tl s") (auto split: if_splits)
  have "last s = last rest" using s by simp
  moreover have "isHexDigit (last rest)" using s(2,3) by (simp add: list_all_iff)
  ultimately have "\<not> isWhiteSpace (last s)" by (simp add: isHexDigit_not_white)
  moreover have "\<not> isWhiteSpace (hd s)" using s by (simp add: isWhiteSpace_def)
  ultimately have t: "trim s = s" using s by (intro trim_id) auto
  obtain v where v: "parseDigits 16 0 rest = Some v" "v < 16 ^ length rest"
    using parseDigits_hex [OF s(3), of 0] by auto
  from t s have t': "trim (CHR ''0'' # CHR ''x'' # rest) = CHR ''0'' # CHR ''x'' # rest" by simp
  show ?thesis using v s by (simp add: BigInt_def t' parseNat_def)
qed

lemma matchesLockTag_BigInt:
  assumes "matchesLockTag s"
  shows "\<exists>v. parseDigits 16 0 (drop 2 s) = Some v \<and> BigInt s = Some (int v) \<and> v < 2 ^ 96"
proof -
  have "drop 2 s \<noteq> []" using assms by (auto simp: matchesLockTag_def)
  with assms obtain v where "parseDigits 16 0 (drop 2 s) = Some v" "BigInt s = Some (int v)"
      "v < 16 ^ (length s - 2)"
    using BigInt_hex [of s] by (auto simp: matchesLockTag_def)
  moreover have "(16::nat) ^ (length s - 2) = 2 ^ 96" using assms by (simp add: matchesLockTag_def)
  ultimately show ?thesis by auto
qed

lemma isAddress_BigInt:
  assumes "isAddress s"
  shows "\<exists>v. parseDigits 16 0 (drop 2 s) = Some v \<and> BigInt s = Some (int v) \<and> v < 2 ^ 160"
proof -
  have "drop 2 s \<noteq> []" using assms by (auto simp: isAddress_def)
  with assms obtain v where "parseDigits 16 0 (drop 2 s) = Some v" "BigInt s = Some (int v)"
      "v < 16 ^ (length s - 2)"
    using BigInt_hex [of s] by (auto simp: isAddress_def)
  moreover have "(16::nat) ^ (length s - 2) = 2 ^ 160" using assms by (simp add: isAddress_def)
  ultimately show ?thesis by auto
qed

lemma lockId_inj:
  fixes t t' k k' :: int
  assumes "0 \<le> k" "k < 2 ^ 160" "0 \<le> k'" "k' < 2 ^ 160"
    and "push_bit 160 t OR k = push_bit 160 t' OR k'"
  shows "t = t' \<and> k = k'"
proof -
  have tk: "take_bit 160 k = k" "take_bit 160 k' = k'"
    using assms(1-4) by (simp_all add: take_bit_int_eq_self)
  have dk: "drop_bit 160 k = 0" "drop_bit 160 k' = 0"
    using assms(1-4) by (simp_all add: drop_bit_eq_div)
  have "take_bit 160 (push_bit 160 t OR k) = take_bit 160 (push_bit 160 t' OR k')"
    using assms(5) by simp
  then have k: "k = k'" by (simp add: take_bit_or take_bit_push_bit tk)
  have "drop_bit 160 (push_bit 160 t OR k) = drop_bit 160 (push_bit 160 t' OR k')"
    using assms(5) by simp
  then have "t = t'" by (simp add: drop_bit_or drop_bit_push_bit dk)
  with k show ?thesis by simp
qed

lemma bindE_simps [simp]:
  "bindE (Inl e) f = Inl e"
  "bindE (Inr x) f = f x"
  by (simp_all add: bindE_def)

lemma orThrow_simps [simp]:
  "orThrow e None = Inl e"
  "orThrow e (Some x) = Inr x"
  by (simp_all add: orThrow_def)

lemma mapE_Inr:
  "(\<And>x. x \<in> set xs \<Longrightarrow> f x = Inr (g x)) \<Longrightarrow> mapE f xs = Inr (map g xs)"
  by (induction xs) simp_all

lemma validLock_lockIdOf:
  assumes "validLock c"
  shows "\<exists>t k. BigInt (lockTag c) = Some (int t) \<and> BigInt (token c) = Some (int k)
           \<and> k < 2 ^ 160 \<and> lockIdOf c = Some (push_bit 160 (int t) OR int k)"
proof -
  obtain t where t: "BigInt (lockTag c) = Some (int t)"
    using assms matchesLockTag_BigInt [of "lockTag c"] by (auto simp: validLock_def)
  obtain k where k: "BigInt (token c) = Some (int k)" "k < 2 ^ 160"
    using assms isAddress_BigInt [of "token c"] by (auto simp: validLock_def)
  show ?thesis using t k by (auto simp: lockIdOf_def)
qed

lemma validLock_lockIdKey_inj:
  assumes "validLock a" "validLock b" "lockIdKey a = lockIdKey b"
  shows "lockPair a = lockPair b"
proof -
  obtain t k where a: "BigInt (lockTag a) = Some (int t)" "BigInt (token a) = Some (int k)"
      "k < 2 ^ 160" "lockIdOf a = Some (push_bit 160 (int t) OR int k)"
    using validLock_lockIdOf [OF assms(1)] by blast
  obtain t' k' where b: "BigInt (lockTag b) = Some (int t')" "BigInt (token b) = Some (int k')"
      "k' < 2 ^ 160" "lockIdOf b = Some (push_bit 160 (int t') OR int k')"
    using validLock_lockIdOf [OF assms(2)] by blast
  have "push_bit 160 (int t) OR int k = push_bit 160 (int t') OR int k'"
    using assms(3) a(4) b(4) by (simp add: lockIdKey_def)
  moreover have "int k < 2 ^ 160"
    using a(3) by (metis of_nat_less_iff of_nat_numeral of_nat_power)
  moreover have "int k' < 2 ^ 160"
    using b(3) by (metis of_nat_less_iff of_nat_numeral of_nat_power)
  ultimately have "int t = int t' \<and> int k = int k'"
    by (intro lockId_inj) simp_all
  then show ?thesis using a b by (simp add: lockPair_def)
qed

lemma sortCommitments_valid:
  assumes "list_all validLock cs"
  shows "sortCommitments cs = Inr (sort_key lockIdKey cs)"
proof -
  have all: "list_all (\<lambda>c. lockIdOf c \<noteq> None) cs"
    using assms validLock_lockIdOf by (fastforce simp: list_all_iff)
  have short: "length cs < 2 \<Longrightarrow> sort_key lockIdKey cs = cs"
    by (cases cs; cases "tl cs") auto
  show ?thesis using all short by (simp add: sortCommitments_def)
qed

lemma sort_key_permutation:
  assumes "list_all validLock cs" "distinct (map lockPair cs)" "mset shuffled = mset cs"
  shows "sort_key lockIdKey shuffled = sort_key lockIdKey cs"
proof (rule sort_key_inj_key_eq)
  show "mset shuffled = mset (sort_key lockIdKey cs)" using assms(3) by simp
  have set: "set shuffled = set cs" using assms(3) by (rule mset_eq_setD)
  have "inj_on lockPair (set cs)" using assms(2) by (simp add: distinct_map)
  then show "inj_on lockIdKey (set shuffled)"
    unfolding set using assms(1) validLock_lockIdKey_inj
    by (auto simp: inj_on_def list_all_iff)
  show "sorted (map lockIdKey (sort_key lockIdKey cs))" by simp
qed

lemma isl_bindE: "isl (bindE m f) \<longleftrightarrow> isl m \<or> (\<exists>x. m = Inr x \<and> isl (f x))"
  by (cases m) simp_all

lemma mapE_ok: "(\<And>x. x \<in> set xs \<Longrightarrow> \<not> isl (f x)) \<Longrightarrow> \<not> isl (mapE f xs)"
  by (induction xs) (auto simp: isl_bindE)

lemma getAddress_isAddress: "isAddress a \<Longrightarrow> getAddress a = Some a"
  by (simp add: getAddress_def)

lemma encodeAddress_ok: "isAddress a \<Longrightarrow> \<not> isl (encodeAddress a)"
  using isAddress_BigInt [of a] by (auto simp: encodeAddress_def)

lemma encodeBytes12_ok: "matchesLockTag s \<Longrightarrow> \<not> isl (encodeBytes12 s)"
  using matchesLockTag_BigInt [of s] by (auto simp: encodeBytes12_def)

lemma encodeUint256_ok: "0 \<le> v \<Longrightarrow> v < 2 ^ 256 \<Longrightarrow> \<not> isl (encodeUint256 v)"
  by (simp add: encodeUint256_def)

lemma validLock_prepare: "validLock c \<Longrightarrow> prepareBatchLock c = Inr (preparedOf c)"
  by (auto simp: validLock_def prepareBatchLock_def preparedOf_def matchesLockTag_def
        getAddress_isAddress split: option.splits)

lemma validLock_encode: "validLock c \<Longrightarrow> \<not> isl (encodeLock (preparedOf c))"
  by (auto simp: validLock_def preparedOf_def encodeLock_def isl_bindE encodeBytes12_ok
        encodeAddress_ok encodeUint256_ok split: option.splits)

lemma encodeLockArray_valid:
  assumes "list_all validLock cs"
  shows "\<not> isl (encodeLockArray (map preparedOf cs))"
proof -
  have "\<not> isl (mapE encodeLock (map preparedOf cs))"
    using assms by (intro mapE_ok) (auto simp: list_all_iff validLock_encode)
  then show ?thesis by (simp add: encodeLockArray_def isl_bindE)
qed

lemma generateBatchClaimHash_succeeds:
  assumes "validatedBatch c" "witnessHashOk c"
  shows "\<not> isl (generateBatchClaimHash kec c)"
proof -
  let ?sorted = "sort_key lockIdKey (vb_commitments c)"
  have valid: "list_all validLock (vb_commitments c)" using assms(1) by (simp add: validatedBatch_def)
  then have valid': "list_all validLock ?sorted" by (simp add: list_all_iff)
  have 1: "getAddress (vb_arbiter c) = Some (vb_arbiter c)"
      "getAddress (vb_sponsor c) = Some (vb_sponsor c)"
    using assms(1) by (simp_all add: validatedBatch_def getAddress_isAddress)
  have 2: "sortCommitments (vb_commitments c) = Inr ?sorted"
    using valid by (rule sortCommitments_valid)
  have 3: "mapE prepareBatchLock ?sorted = Inr (map preparedOf ?sorted)"
    using valid' by (intro mapE_Inr) (simp add: list_all_iff validLock_prepare)
  obtain enc where 4: "encodeLockArray (map preparedOf ?sorted) = Inr enc"
    using encodeLockArray_valid [OF valid'] by (cases "encodeLockArray (map preparedOf ?sorted)") auto
  have 5: "\<not> isl (encodeAddress (vb_arbiter c))" "\<not> isl (encodeAddress (vb_sponsor c))"
      "\<not> isl (encodeUint256 (vb_nonce c))" "\<not> isl (encodeUint256 (vb_expires c))"
    using assms(1) by (simp_all add: validatedBatch_def encodeAddress_ok encodeUint256_ok)
  show ?thesis
    using 5 assms(2)
    by (auto simp: generateBatchClaimHash_def 1 2 3 4 Let_def isl_bindE falsy_def witnessHashOk_def
             split: option.splits)
qed

lemma generateBatchClaimHash_permutation:
  assumes "list_all validLock (vb_commitments c)"
    and "distinct (map lockPair (vb_commitments c))"
    and "mset shuffled = mset (vb_commitments c)"
  shows "generateBatchClaimHash kec (c\<lparr>vb_commitments := shuffled\<rparr>) = generateBatchClaimHash kec c"
proof -
  have "set shuffled = set (vb_commitments c)" using assms(3) by (rule mset_eq_setD)
  then have "list_all validLock shuffled" using assms(1) by (simp add: list_all_iff)
  then have "sortCommitments shuffled = Inr (sort_key lockIdKey shuffled)"
    by (rule sortCommitments_valid)
  also have "\<dots> = Inr (sort_key lockIdKey (vb_commitments c))"
    using sort_key_permutation [OF assms] by simp
  also have "\<dots> = sortCommitments (vb_commitments c)"
    using assms(1) by (simp add: sortCommitments_valid)
  finally show ?thesis
    by (simp add: generateBatchClaimHash_def Let_def
             cong: if_cong prod.case_cong option.case_cong)
qed

section \<open>What structural validation establishes\<close>

lemma digitVal_digitChar: "d < 10 \<Longrightarrow> digitVal (digitChar d) = Some d"
proof -
  assume "d < 10"
  then have "d \<in> {0, 1, 2, 3, 4, 5, 6, 7, 8, 9}" by auto
  then show ?thesis
    by (auto simp: digitChar_def digitVal_def)
qed

lemma digitChar_props:
  assumes "d < 10"
  shows "\<not> isWhiteSpace (digitChar d)" "digitChar d \<noteq> CHR ''x''" "digitChar d \<noteq> CHR ''X''"
    "digitChar d \<noteq> CHR ''o''" "digitChar d \<noteq> CHR ''O''" "digitChar d \<noteq> CHR ''b''"
    "digitChar d \<noteq> CHR ''B''" "digitChar d \<noteq> CHR ''+''" "digitChar d \<noteq> CHR ''-''"
proof -
  from assms have "d \<in> {0, 1, 2, 3, 4, 5, 6, 7, 8, 9}" by auto
  then show "\<not> isWhiteSpace (digitChar d)" "digitChar d \<noteq> CHR ''x''" "digitChar d \<noteq> CHR ''X''"
    "digitChar d \<noteq> CHR ''o''" "digitChar d \<noteq> CHR ''O''" "digitChar d \<noteq> CHR ''b''"
    "digitChar d \<noteq> CHR ''B''" "digitChar d \<noteq> CHR ''+''" "digitChar d \<noteq> CHR ''-''"
    by (auto simp: digitChar_def isWhiteSpace_def)
qed

lemma showNat_digits: "showNat n \<noteq> [] \<and> isDigits (showNat n)"
proof (induction n rule: showNat.induct)
  case (1 n)
  show ?case
  proof (cases "n < 10")
    case True
    then show ?thesis by (subst showNat.simps, subst (2) showNat.simps) (auto simp: isDigits_def)
  next
    case False
    have "\<exists>d<10. digitChar (n mod 10) = digitChar d"
      by (rule exI [of _ "n mod 10"]) simp
    with False 1 show ?thesis
      by (subst showNat.simps, subst (2) showNat.simps) (auto simp: isDigits_def)
  qed
qed

lemma parseDigits_append:
  "parseDigits b acc (xs @ ys) =
     (case parseDigits b acc xs of None \<Rightarrow> None | Some v \<Rightarrow> parseDigits b v ys)"
  by (induction xs arbitrary: acc) (auto split: option.splits)

lemma parseDigits_showNat: "parseDigits 10 0 (showNat n) = Some n"
proof (induction n rule: showNat.induct)
  case (1 n)
  show ?case
  proof (cases "n < 10")
    case True
    then show ?thesis by (subst showNat.simps) (simp add: digitVal_digitChar)
  next
    case False
    have "n mod 10 < 10" by simp
    then have "digitVal (digitChar (n mod 10)) = Some (n mod 10)" by (rule digitVal_digitChar)
    with False 1 show ?thesis
      by (subst showNat.simps) (simp add: parseDigits_append)
  qed
qed

lemma BigInt_showNat: "BigInt (showNat n) = Some (int n)"
proof -
  let ?s = "showNat n"
  have ne: "?s \<noteq> []" and dg: "isDigits ?s" using showNat_digits [of n] by simp_all
  have hd: "\<exists>d<10. hd ?s = digitChar d" using ne dg by (cases ?s) (auto simp: isDigits_def)
  have lst: "\<exists>d<10. last ?s = digitChar d" using ne dg by (auto simp: isDigits_def)
  have t: "trim ?s = ?s"
    using ne hd lst digitChar_props(1) by (intro trim_id) auto
  have snd: "take 2 ?s \<noteq> [CHR ''0'', c]" if "c \<in> {CHR ''x'', CHR ''X'', CHR ''o'', CHR ''O'', CHR ''b'', CHR ''B''}" for c
  proof
    assume a: "take 2 ?s = [CHR ''0'', c]"
    then have "c \<in> set ?s" by (metis in_set_takeD list.set_intros(1,2))
    then obtain d where "d < 10" "c = digitChar d" using dg by (auto simp: isDigits_def)
    with that digitChar_props [of d] show False by auto
  qed
  obtain d0 where d0: "d0 < 10" "hd ?s = digitChar d0" using hd by blast
  have sign: "hd ?s \<noteq> CHR ''+''" "hd ?s \<noteq> CHR ''-''"
    using digitChar_props(8,9) [OF d0(1)] d0(2) by simp_all
  show ?thesis
    using ne sign snd
    by (simp add: BigInt_def t parseNat_def parseDigits_showNat)
qed

lemma BigInt_showInt: "0 \<le> v \<Longrightarrow> BigInt (showInt v) = Some v"
  by (simp add: showInt_def BigInt_showNat)

lemma validateCommitments_valid:
  assumes "\<And>s v. toPositiveBigInt s = Some v \<Longrightarrow> 0 < v \<and> v < 2 ^ 256"
    and "validateCommitments toPositiveBigInt cs = Inr vs"
  shows "list_all validLock vs \<and> length vs = length cs"
  using assms(2)
proof (induction cs arbitrary: vs)
  case Nil
  then show ?case by simp
next
  case (Cons c cs)
  from Cons.prems obtain a rest where
    c: "matchesLockTag (lockTag c)" "isAddress (token c)" "toPositiveBigInt (amount c) = Some a"
    and rest: "validateCommitments toPositiveBigInt cs = Inr rest"
    and vs: "vs = \<lparr>lockTag = lockTag c, token = token c, amount = showInt a\<rparr> # rest"
    by (auto simp: getAddress_def split: if_splits option.splits sum.splits)
  have "0 < a" "a < 2 ^ 256" using assms(1) [OF c(3)] by simp_all
  then have "validLock \<lparr>lockTag = lockTag c, token = token c, amount = showInt a\<rparr>"
    using c(1,2) by (simp add: validLock_def BigInt_showInt)
  with Cons.IH [OF rest] vs show ?case by simp
qed

lemma validateBatchStructure_validated:
  assumes "\<And>s v. toPositiveBigInt s = Some v \<Longrightarrow> 0 < v \<and> v < 2 ^ 256"
    and "validateBatchStructure toPositiveBigInt raw = Inr c"
  shows "validatedBatch c"
proof -
  from assms(2) obtain nonceString nonce expires vs where
    a: "isAddress (bm_arbiter raw)" "isAddress (bm_sponsor raw)"
    and n: "bm_nonce raw = Some nonceString" "toPositiveBigInt nonceString = Some nonce"
    and e: "toPositiveBigInt (bm_expires raw) = Some expires"
    and ne: "bm_commitments raw \<noteq> []"
    and vs: "validateCommitments toPositiveBigInt (bm_commitments raw) = Inr vs"
    and w: "\<not> witnessInconsistent (bm_witnessTypeString raw) (bm_witnessHash raw)"
    and c: "c = \<lparr>vb_arbiter = bm_arbiter raw, vb_sponsor = bm_sponsor raw, vb_nonce = nonce,
                 vb_expires = expires, vb_commitments = vs,
                 vb_witnessTypeString = bm_witnessTypeString raw,
                 vb_witnessHash = bm_witnessHash raw\<rparr>"
    by (auto simp: validateBatchStructure_def getAddress_def Let_def
             split: if_splits option.splits sum.splits)
  have "list_all validLock vs" "vs \<noteq> []"
    using validateCommitments_valid [OF assms(1) vs] ne by auto
  moreover have "0 < nonce" "nonce < 2 ^ 256" "0 < expires" "expires < 2 ^ 256"
    using assms(1) [OF n(2)] assms(1) [OF e] by simp_all
  ultimately show ?thesis
    using a w by (simp add: validatedBatch_def c)
qed

lemma toPositiveBigIntSpec_range:
  "toPositiveBigIntSpec s = Some v \<Longrightarrow> 0 < v \<and> v < 2 ^ 256"
  by (auto simp: toPositiveBigIntSpec_def split: option.splits if_splits)

lemma validateBatchStructure_spec_validated:
  "validateBatchStructure toPositiveBigIntSpec raw = Inr c \<Longrightarrow> validatedBatch c"
  using toPositiveBigIntSpec_range by (rule validateBatchStructure_validated)

section \<open>Batch claim hashes\<close>

lemma lockIdKey_distinct:
  assumes "list_all validLock cs" "distinct (map lockPair cs)"
  shows "distinct (map lockIdKey cs)"
proof -
  have "distinct cs" "inj_on lockPair (set cs)" using assms(2) by (simp_all add: distinct_map)
  moreover have "inj_on lockIdKey (set cs)"
    using assms(1) \<open>inj_on lockPair (set cs)\<close> validLock_lockIdKey_inj
    by (auto simp: inj_on_def list_all_iff)
  ultimately show ?thesis by (simp add: distinct_map)
qed

text \<open>
  C2: for a validated batch compact whose commitments have pairwise distinct
  (lockTag, token) pairs, every permutation of the commitments gives the same result of
  \<open>generateBatchClaimHash\<close>: the commitments are first sorted, strictly ascending, on
  \<open>lockId = (lockTag << 160) | token\<close>, and the sorted list does not depend on the order
  given. The result is a hash (not an error) when the witness hash, if any, is 32 bytes.
  Every compact that \<open>validateBatchStructure\<close> returns is validated in this sense when
  \<open>toPositiveBigInt\<close> returns positive uint256 values (\<open>validateBatchStructure_validated\<close>).
\<close>

theorem batch_hash_permutation_invariant:
  assumes "validatedBatch compact"
    and "distinct (map lockPair (vb_commitments compact))"
    and "mset shuffled = mset (vb_commitments compact)"
  shows "generateBatchClaimHash kec (compact\<lparr>vb_commitments := shuffled\<rparr>)
           = generateBatchClaimHash kec compact
         \<and> sortCommitments shuffled = Inr (sort_key lockIdKey (vb_commitments compact))
         \<and> sorted_wrt (<) (map lockIdKey (sort_key lockIdKey (vb_commitments compact)))
         \<and> (witnessHashOk compact \<longrightarrow> \<not> isl (generateBatchClaimHash kec compact))"
proof -
  have valid: "list_all validLock (vb_commitments compact)"
    using assms(1) by (simp add: validatedBatch_def)
  have "set shuffled = set (vb_commitments compact)" using assms(3) by (rule mset_eq_setD)
  then have "list_all validLock shuffled" using valid by (simp add: list_all_iff)
  then have sorted: "sortCommitments shuffled = Inr (sort_key lockIdKey (vb_commitments compact))"
    using sort_key_permutation [OF valid assms(2,3)] by (simp add: sortCommitments_valid)
  have "distinct (map lockIdKey (sort_key lockIdKey (vb_commitments compact)))"
    using lockIdKey_distinct [OF valid assms(2)] by (simp add: distinct_map)
  then have strict: "sorted_wrt (<) (map lockIdKey (sort_key lockIdKey (vb_commitments compact)))"
    by (simp add: strict_sorted_iff)
  show ?thesis
    using generateBatchClaimHash_permutation [OF valid assms(2,3)] sorted strict
      generateBatchClaimHash_succeeds [OF assms(1)]
    by simp
qed

lemma BigInt_1e18_2e18:
  "BigInt ''2000000000000000000'' = Some 2000000000000000000"
  by (simp add: BigInt_eval)

lemma exLock_tags:
  "BigInt ''0x000000000000000000000001'' = Some 1"
  "BigInt ''0x000000000000000000000002'' = Some 2"
  "BigInt ''0x0000000000000000000000000000000000000003'' = Some 3"
  "BigInt ''0x0000000000000000000000000000000000000004'' = Some 4"
  by (simp_all add: BigInt_eval)

lemma validLock_exLockA_1e18: "validLock (exLockA ''1000000000000000000'')"
  by (simp add: validLock_def exLockA_def matchesLockTag_def isAddress_def isHexDigit_def
        digitVal_def BigInt_1e18)

lemma validLock_exLockA_2e18: "validLock (exLockA ''2000000000000000000'')"
  by (simp add: validLock_def exLockA_def matchesLockTag_def isAddress_def isHexDigit_def
        digitVal_def BigInt_1e18_2e18)

lemma validLock_exLockB: "validLock exLockB"
  by (simp add: validLock_def exLockB_def matchesLockTag_def isAddress_def isHexDigit_def
        digitVal_def BigInt_1e18_2e18)

lemma validatedBatch_exBatch:
  "cs \<noteq> [] \<Longrightarrow> list_all validLock cs \<Longrightarrow> validatedBatch (exBatch cs)"
  by (simp add: validatedBatch_def exBatch_def isAddress_def isHexDigit_def digitVal_def
        witnessInconsistent_def)

lemma witnessHashOk_exBatch: "witnessHashOk (exBatch cs)"
  by (simp add: witnessHashOk_def exBatch_def)

theorem batch_hash_permutation_invariant_witness:
  "generateBatchClaimHash exKeccak (exBatch [exLockB, exLockA ''1000000000000000000''])
     = generateBatchClaimHash exKeccak (exBatch [exLockA ''1000000000000000000'', exLockB])
   \<and> sortCommitments [exLockB, exLockA ''1000000000000000000'']
     = Inr [exLockA ''1000000000000000000'', exLockB]
   \<and> \<not> isl (generateBatchClaimHash exKeccak (exBatch [exLockA ''1000000000000000000'', exLockB]))"
proof -
  let ?cs = "[exLockA ''1000000000000000000'', exLockB]"
  have v: "validatedBatch (exBatch ?cs)"
    by (rule validatedBatch_exBatch) (simp_all add: validLock_exLockA_1e18 validLock_exLockB)
  have d: "distinct (map lockPair (vb_commitments (exBatch ?cs)))"
    by (simp add: exBatch_def lockPair_def exLockA_def exLockB_def exLock_tags)
  have m: "mset [exLockB, exLockA ''1000000000000000000''] = mset (vb_commitments (exBatch ?cs))"
    by (simp add: exBatch_def)
  have keys: "lockIdKey (exLockA ''1000000000000000000'') = 1461501637330902918203684832716283019655932542979"
      "lockIdKey exLockB = 2923003274661805836407369665432566039311865085956"
    by (simp_all add: lockIdKey_def lockIdOf_def exLockA_def exLockB_def exLock_tags)
  have s: "sort_key lockIdKey (vb_commitments (exBatch ?cs)) = ?cs"
    by (simp add: exBatch_def keys)
  show ?thesis
    using batch_hash_permutation_invariant [OF v d m, of exKeccak] witnessHashOk_exBatch [of ?cs] s
    by (simp add: exBatch_def)
qed

text \<open>
  C4 (as amended): when two commitments of a validated batch compact share the same lock
  id, the batch claim-hash computation does not fail: the comparator returns 0 for them,
  the sort is stable, so commitments of equal lock id stay in the order given, and a
  claim hash is produced (no duplicate-lock error exists).
\<close>

theorem batch_hash_duplicate_lock:
  assumes "validatedBatch compact" "witnessHashOk compact"
    and "\<not> distinct (map lockIdKey (vb_commitments compact))"
  shows "\<not> isl (generateBatchClaimHash kec compact)
         \<and> sortCommitments (vb_commitments compact)
             = Inr (sort_key lockIdKey (vb_commitments compact))
         \<and> filter (\<lambda>c. lockIdKey c = lockId) (sort_key lockIdKey (vb_commitments compact))
             = filter (\<lambda>c. lockIdKey c = lockId) (vb_commitments compact)"
proof -
  have "list_all validLock (vb_commitments compact)"
    using assms(1) by (simp add: validatedBatch_def)
  then show ?thesis
    using generateBatchClaimHash_succeeds [OF assms(1,2)]
    by (simp add: sortCommitments_valid sort_key_stable)
qed

lemma exDuplicate_keys:
  "lockIdKey (exLockA amt) = 1461501637330902918203684832716283019655932542979"
  by (simp add: lockIdKey_def lockIdOf_def exLockA_def exLock_tags)

theorem batch_hash_duplicate_lock_witness:
  "\<not> isl (generateBatchClaimHash exKeccak
            (exBatch [exLockA ''2000000000000000000'', exLockA ''1000000000000000000'']))
   \<and> sortCommitments [exLockA ''2000000000000000000'', exLockA ''1000000000000000000'']
       = Inr [exLockA ''2000000000000000000'', exLockA ''1000000000000000000'']"
proof -
  let ?cs = "[exLockA ''2000000000000000000'', exLockA ''1000000000000000000'']"
  have v: "validatedBatch (exBatch ?cs)"
    by (rule validatedBatch_exBatch) (simp_all add: validLock_exLockA_1e18 validLock_exLockA_2e18)
  have d: "\<not> distinct (map lockIdKey (vb_commitments (exBatch ?cs)))"
    by (simp add: exBatch_def exDuplicate_keys)
  have s: "sort_key lockIdKey ?cs = ?cs" by (simp add: exDuplicate_keys)
  show ?thesis
    using batch_hash_duplicate_lock [OF v witnessHashOk_exBatch d, of exKeccak] s
    by (simp add: exBatch_def)
qed

text \<open>
  The claim as stated fails: two commitments with the same lock tag and token (and
  different amounts) pass structural validation and are hashed, not rejected.
\<close>

lemma showInt_1e18: "showInt 1000000000000000000 = ''1000000000000000000''"
  by (simp add: showInt_def showNat.simps digitChar_def)

lemma showInt_2e18: "showInt 2000000000000000000 = ''2000000000000000000''"
  by (simp add: showInt_def showNat.simps digitChar_def)

lemma toPositiveBigIntSpec_2e18:
  "toPositiveBigIntSpec ''2000000000000000000'' = Some 2000000000000000000"
  by (simp add: toPositiveBigIntSpec_def BigInt_1e18_2e18)

theorem batch_hash_duplicate_lock_counterexample:
  "lockIdOf (exLockA ''2000000000000000000'') = lockIdOf (exLockA ''1000000000000000000'')
   \<and> validateBatchStructure toPositiveBigIntSpec
       (exRawBatch [exLockA ''2000000000000000000'', exLockA ''1000000000000000000''])
     = Inr (exBatch [exLockA ''2000000000000000000'', exLockA ''1000000000000000000''])
   \<and> \<not> isl (generateBatchClaimHash exKeccak
              (exBatch [exLockA ''2000000000000000000'', exLockA ''1000000000000000000'']))"
proof -
  have "validatedBatch
          (exBatch [exLockA ''2000000000000000000'', exLockA ''1000000000000000000''])"
    by (rule validatedBatch_exBatch) (simp_all add: validLock_exLockA_1e18 validLock_exLockA_2e18)
  then have "\<not> isl (generateBatchClaimHash exKeccak
              (exBatch [exLockA ''2000000000000000000'', exLockA ''1000000000000000000'']))"
    using generateBatchClaimHash_succeeds [OF _ witnessHashOk_exBatch, of _ exKeccak] by simp
  moreover have "validateBatchStructure toPositiveBigIntSpec
       (exRawBatch [exLockA ''2000000000000000000'', exLockA ''1000000000000000000''])
     = Inr (exBatch [exLockA ''2000000000000000000'', exLockA ''1000000000000000000''])"
    by (simp add: validateBatchStructure_def exRawBatch_def exBatch_def exLockA_def
          getAddress_eval matchesLockTag_def witnessInconsistent_def
          toPositiveBigIntSpec_0x1 toPositiveBigIntSpec_expires toPositiveBigIntSpec_1e18
          toPositiveBigIntSpec_2e18 showInt_1e18 showInt_2e18)
  ultimately show ?thesis
    by (simp add: lockIdOf_def exLockA_def exLock_tags)
qed

text \<open>
  C10 fails on the code. The \<open>map\<close> callback prepends a missing \<open>0x\<close>, but the sort
  comparator before it calls \<open>BigInt\<close> on the lock tag as given: without the prefix a tag
  with a hexadecimal letter is not an integer literal, and the computation throws, while
  the same compact with prefixed tags is hashed.
\<close>

theorem batch_hash_unprefixed_lockTag:
  "generateBatchClaimHash exKeccak (exBatch (exTagged [])) = Inl SyntaxError
   \<and> \<not> isl (generateBatchClaimHash exKeccak (exBatch (exTagged ''0x'')))"
proof -
  have "BigInt ''00000000000000000000000a'' = None" by (simp add: BigInt_eval)
  then have "sortCommitments (exTagged []) = Inl SyntaxError"
    by (simp add: sortCommitments_def exTagged_def lockIdOf_def)
  then have a: "generateBatchClaimHash exKeccak (exBatch (exTagged [])) = Inl SyntaxError"
    by (simp add: generateBatchClaimHash_def exBatch_def getAddress_eval)
  have "list_all validLock (exTagged ''0x'')"
    by (simp add: exTagged_def validLock_def matchesLockTag_def isAddress_def isHexDigit_def
          digitVal_def BigInt_1e18 BigInt_1e18_2e18)
  then have "validatedBatch (exBatch (exTagged ''0x''))"
    by (intro validatedBatch_exBatch) (simp_all add: exTagged_def)
  then have "\<not> isl (generateBatchClaimHash exKeccak (exBatch (exTagged ''0x'')))"
    using generateBatchClaimHash_succeeds [OF _ witnessHashOk_exBatch] by simp
  with a show ?thesis by simp
qed

text \<open>With a single commitment the comparator is never called, and the spelling of the
  lock tag does not matter.\<close>

lemma batch_hash_single_lock_prefix:
  assumes "take 2 tag \<noteq> ''0x''"
  shows "generateBatchClaimHash kec (c\<lparr>vb_commitments := [l\<lparr>lockTag := tag\<rparr>]\<rparr>)
           = generateBatchClaimHash kec (c\<lparr>vb_commitments := [l\<lparr>lockTag := ''0x'' @ tag\<rparr>]\<rparr>)"
  using assms
  by (simp add: generateBatchClaimHash_def sortCommitments_def prepareBatchLock_def Let_def
           cong: if_cong prod.case_cong option.case_cong)

section \<open>The Mandate text of the multichain type strings\<close>

lemma mandate_text_present:
  assumes "w \<noteq> []"
  shows "multichainTypeString (Some w) =
     ''MultichainCompact(address sponsor,uint256 nonce,uint256 expires,Element[] elements)''
     @ elementTypeString (Some w)"
  using assms
  by (simp add: multichainTypeString_def elementTypeString_def falsy_def concatUndefined_def)

text \<open>
  C9 fails on the code when the optional \<open>witnessTypeString\<close> argument is absent (and when
  it is the empty string): the Element type string then embeds \<open>Mandate(undefined)\<close>
  (respectively \<open>Mandate()\<close>), while the root type string embeds \<open>Mandate(bytes data)\<close>.
\<close>

theorem mandate_text_absent:
  "elementTypeString None =
     ''Element(address arbiter,uint256 chainId,Lock[] commitments,Mandate mandate)Lock(bytes12 lockTag,address token,uint256 amount)Mandate(undefined)''
   \<and> multichainTypeString None =
     ''MultichainCompact(address sponsor,uint256 nonce,uint256 expires,Element[] elements)Element(address arbiter,uint256 chainId,Lock[] commitments,Mandate mandate)Lock(bytes12 lockTag,address token,uint256 amount)Mandate(bytes data)''
   \<and> elementTypeString (Some []) =
     ''Element(address arbiter,uint256 chainId,Lock[] commitments,Mandate mandate)Lock(bytes12 lockTag,address token,uint256 amount)Mandate()''
   \<and> multichainTypeString (Some []) = multichainTypeString None"
  by (simp add: elementTypeString_def multichainTypeString_def concatUndefined_def falsy_def)

section \<open>Multichain claim hashes\<close>

lemma length_be_bytes [simp]: "length (be_bytes k n) = k"
  by (induction k arbitrary: n) simp_all

lemma foldl_be: "foldl (\<lambda>acc b. acc * 256 + unat (b :: byte)) a ys
                  = a * 256 ^ length ys + foldl (\<lambda>acc b. acc * 256 + unat b) 0 ys"
proof (induction ys arbitrary: a)
  case Nil
  then show ?case by simp
next
  case (Cons y ys)
  let ?f = "\<lambda>acc b. acc * 256 + unat (b :: byte)"
  have 1: "foldl ?f (a * 256 + unat y) ys = (a * 256 + unat y) * 256 ^ length ys + foldl ?f 0 ys"
    by (rule Cons.IH)
  have 2: "foldl ?f (0 * 256 + unat y) ys = (0 * 256 + unat y) * 256 ^ length ys + foldl ?f 0 ys"
    by (rule Cons.IH)
  have "foldl ?f a (y # ys) = (a * 256 + unat y) * 256 ^ length ys + foldl ?f 0 ys"
    unfolding foldl_Cons by (rule 1)
  moreover have "foldl ?f 0 (y # ys) = unat y * 256 ^ length ys + foldl ?f 0 ys"
    unfolding foldl_Cons using 2 by simp
  ultimately show ?case by (simp only: length_Cons power_Suc) (simp add: algebra_simps)
qed

lemma be_nat_append: "be_nat (xs @ ys) = be_nat xs * 256 ^ length ys + be_nat ys"
  unfolding be_nat_def foldl_append by (rule foldl_be)

lemma unat_byte_of_nat: "unat (word_of_nat n :: byte) = n mod 256"
  by (simp add: unat_of_nat)

lemma be_nat_be_bytes: "be_nat (be_bytes k n) = n mod 256 ^ k"
proof (induction k arbitrary: n)
  case 0
  then show ?case by (simp add: be_nat_def)
next
  case (Suc k)
  have "be_nat (be_bytes (Suc k) n) = (n div 256 mod 256 ^ k) * 256 + n mod 256"
    by (simp add: be_nat_append Suc.IH) (simp add: be_nat_def unat_byte_of_nat)
  also have "\<dots> = n mod (256 * 256 ^ k)"
    by (simp add: mod_mult2_eq)
  finally show ?case by simp
qed

lemma be_bytes_inj: "be_bytes k n = be_bytes k m \<Longrightarrow> n mod 256 ^ k = m mod 256 ^ k"
  using be_nat_be_bytes [of k n] be_nat_be_bytes [of k m] by simp

lemma pow256: "(256::nat) ^ 32 = 2 ^ 256"
  by simp

lemma encodeHash_inj: "encodeHash a = encodeHash b \<Longrightarrow> a = b"
proof -
  assume "encodeHash a = encodeHash b"
  then have "unat a mod 256 ^ 32 = unat b mod 256 ^ 32"
    unfolding encodeHash_def by (rule be_bytes_inj)
  moreover have "unat a < 2 ^ 256" "unat b < 2 ^ 256"
    using unsigned_less [of a, where 'a = nat] unsigned_less [of b, where 'a = nat] by simp_all
  ultimately have "unat a = unat b" by (simp add: pow256)
  then show ?thesis by (simp add: word_unat_eq_iff)
qed

lemma length_encodeHash [simp]: "length (encodeHash h) = 32"
  by (simp add: encodeHash_def)

lemma encodeHashArray_swap:
  assumes "encodeHashArray [a, b] = encodeHashArray [b, a]"
  shows "a = b"
proof -
  have "be_bytes 32 32 @ be_bytes 32 (length [a, b]) @ concat (map encodeHash [a, b])
      = be_bytes 32 32 @ be_bytes 32 (length [b, a]) @ concat (map encodeHash [b, a])"
    using assms unfolding encodeHashArray_def .
  then have "concat (map encodeHash [a, b]) = concat (map encodeHash [b, a])"
    by (simp only: same_append_eq length_Cons list.size)
  then have "encodeHash a @ encodeHash b = encodeHash b @ encodeHash a"
    by (simp only: list.map concat.simps append_Nil2)
  then have "encodeHash a = encodeHash b"
    by (metis append_eq_append_conv length_encodeHash)
  then show ?thesis by (rule encodeHash_inj)
qed

lemma exKeccak_last_word: "exKeccak (xs @ be_bytes 32 n) = word_of_nat n"
proof -
  have "be_nat (xs @ be_bytes 32 n) = be_nat xs * 2 ^ 256 + n mod 2 ^ 256"
    by (simp add: be_nat_append be_nat_be_bytes)
  then have "(word_of_nat (be_nat (xs @ be_bytes 32 n)) :: hash)
               = word_of_nat (be_nat xs) * word_of_nat (2 ^ 256) + word_of_nat (n mod 2 ^ 256)"
    by simp
  also have "(word_of_nat (2 ^ 256) :: hash) = 0" by simp
  also have "(word_of_nat (n mod 2 ^ 256) :: hash) = word_of_nat n"
    by (simp add: word_of_nat_eq_iff take_bit_eq_mod)
  finally show ?thesis by (simp add: exKeccak_def)
qed

lemma generateMultichainClaimHash_preimage:
  "generateMultichainClaimHash kec c n wts = bindE (claimPreimage kec c wts) (\<lambda>y. Inr (kec y))"
  by (simp add: generateMultichainClaimHash_def claimPreimage_def Let_def bindE_def
           split: sum.splits)

lemma multichainEncoding_shape:
  assumes "multichainEncoding th sp n e a = Inr y"
  shows "\<exists>w. multichainEncoding th sp n e b = Inr (w @ encodeHash b) \<and> y = w @ encodeHash a"
  using assms
  by (auto simp: multichainEncoding_def bindE_def split: sum.splits)

lemma elementHash_of_encoding:
  "elementEncoding kec eth e = Inr x \<Longrightarrow> elementHash kec eth e = Inr (kec x)"
  by (simp add: elementHash_def)

lemma claimPreimage_two:
  assumes "vm_elements c = [e1, e2]"
    and "elementEncoding kec (kec (encodePackedString (elementTypeString wts))) e1 = Inr x1"
    and "elementEncoding kec (kec (encodePackedString (elementTypeString wts))) e2 = Inr x2"
    and "claimPreimage kec c wts = Inr y"
  shows "\<exists>w. y = w @ encodeHash (kec (encodeHashArray [kec x1, kec x2]))
           \<and> (\<forall>c'. vm_sponsor c' = vm_sponsor c \<longrightarrow> vm_nonce c' = vm_nonce c \<longrightarrow>
                  vm_expires c' = vm_expires c \<longrightarrow> vm_elements c' = [e2, e1] \<longrightarrow>
                  claimPreimage kec c' wts
                    = Inr (w @ encodeHash (kec (encodeHashArray [kec x2, kec x1]))))"
proof -
  let ?eth = "kec (encodePackedString (elementTypeString wts))"
  let ?th = "kec (encodePackedString (multichainTypeString wts))"
  have hs: "mapE (elementHash kec ?eth) [e1, e2] = Inr [kec x1, kec x2]"
      "mapE (elementHash kec ?eth) [e2, e1] = Inr [kec x2, kec x1]"
    using assms(2,3) by (simp_all add: elementHash_of_encoding)
  obtain sp where sp: "getAddress (vm_sponsor c) = Some sp"
    using assms(4) by (cases "getAddress (vm_sponsor c)") (simp_all add: claimPreimage_def)
  have "multichainEncoding ?th sp (vm_nonce c) (vm_expires c)
          (kec (encodeHashArray [kec x1, kec x2])) = Inr y"
    using assms(1,4) sp hs by (simp add: claimPreimage_def)
  then obtain w where w: "y = w @ encodeHash (kec (encodeHashArray [kec x1, kec x2]))"
      "multichainEncoding ?th sp (vm_nonce c) (vm_expires c)
          (kec (encodeHashArray [kec x2, kec x1]))
         = Inr (w @ encodeHash (kec (encodeHashArray [kec x2, kec x1])))"
    using multichainEncoding_shape by blast
  show ?thesis
    using w sp hs by (intro exI [of _ w]) (simp add: claimPreimage_def)
qed

text \<open>
  C3: \<open>generateMultichainClaimHash\<close> hashes the element hashes in the order of the
  \<open>elements\<close> array (no sorting of elements): the claim hash is keccak of an encoding
  that ends with the hash of the array of element hashes as given. Hence, for a compact
  with two elements whose encodings differ, swapping the two elements changes the claim
  hash, unless keccak-256 collides on one of three explicit pairs of byte strings (the two
  element encodings, the two encoded arrays of element hashes, the two final encodings).
\<close>

theorem multichain_hash_order_sensitive:
  assumes "vm_elements compact = [e1, e2]"
    and "elementEncoding kec (kec (encodePackedString (elementTypeString wts))) e1 = Inr x1"
    and "elementEncoding kec (kec (encodePackedString (elementTypeString wts))) e2 = Inr x2"
    and "x1 \<noteq> x2"
    and "claimPreimage kec compact wts = Inr y"
    and "claimPreimage kec (compact\<lparr>vm_elements := [e2, e1]\<rparr>) wts = Inr y'"
    and "noCollision kec x1 x2"
    and "noCollision kec (encodeHashArray [kec x1, kec x2]) (encodeHashArray [kec x2, kec x1])"
    and "noCollision kec y y'"
  shows "generateMultichainClaimHash kec compact n wts = Inr (kec y)
         \<and> generateMultichainClaimHash kec (compact\<lparr>vm_elements := [e2, e1]\<rparr>) n wts = Inr (kec y')
         \<and> kec y \<noteq> kec y'
         \<and> mapE (elementHash kec (kec (encodePackedString (elementTypeString wts))))
               (vm_elements compact) = Inr [kec x1, kec x2]"
proof -
  obtain w where w: "y = w @ encodeHash (kec (encodeHashArray [kec x1, kec x2]))"
      "claimPreimage kec (compact\<lparr>vm_elements := [e2, e1]\<rparr>) wts
         = Inr (w @ encodeHash (kec (encodeHashArray [kec x2, kec x1])))"
    using claimPreimage_two [OF assms(1,2,3,5)] by auto
  then have y': "y' = w @ encodeHash (kec (encodeHashArray [kec x2, kec x1]))"
    using assms(6) by simp
  have "kec x1 \<noteq> kec x2" using assms(4,7) by (auto simp: noCollision_def)
  then have "encodeHashArray [kec x1, kec x2] \<noteq> encodeHashArray [kec x2, kec x1]"
    using encodeHashArray_swap by blast
  then have "kec (encodeHashArray [kec x1, kec x2]) \<noteq> kec (encodeHashArray [kec x2, kec x1])"
    using assms(8) by (auto simp: noCollision_def)
  then have "y \<noteq> y'" using w(1) y' encodeHash_inj by auto
  then have "kec y \<noteq> kec y'" using assms(9) by (auto simp: noCollision_def)
  then show ?thesis
    using assms(1,2,3,5,6)
    by (simp add: generateMultichainClaimHash_preimage elementHash_of_encoding)
qed

lemma exKeccak_encodeHash: "exKeccak (xs @ encodeHash h) = h"
  by (simp add: encodeHash_def exKeccak_last_word)

lemma exKeccak_encodeHashArray: "exKeccak (encodeHashArray [a, b]) = b"
proof -
  have "encodeHashArray [a, b] = (be_bytes 32 32 @ be_bytes 32 (length [a, b]) @ encodeHash a) @ encodeHash b"
    unfolding encodeHashArray_def by (simp only: list.map concat.simps append_Nil2 append_assoc)
  then show ?thesis by (simp only: exKeccak_encodeHash)
qed

lemma validLock_prepareElement: "validLock c \<Longrightarrow> prepareElementLock c = Inr (preparedOf c)"
  by (auto simp: validLock_def prepareElementLock_def preparedOf_def getAddress_isAddress
           split: option.splits)

lemma elementEncoding_valid:
  assumes "list_all validLock (ve_commitments e)" "isAddress (ve_arbiter e)"
    and "0 \<le> ve_chainId e" "ve_chainId e < 2 ^ 256"
    and "encodeBytes32 (ve_witnessHash e) = Inr w"
  shows "\<exists>pre. elementEncoding kec eth e = Inr (pre @ w)"
proof -
  let ?sorted = "sort_key lockIdKey (ve_commitments e)"
  have valid': "list_all validLock ?sorted" using assms(1) by (simp add: list_all_iff)
  have 2: "sortCommitments (ve_commitments e) = Inr ?sorted"
    using assms(1) by (rule sortCommitments_valid)
  have 3: "mapE prepareElementLock ?sorted = Inr (map preparedOf ?sorted)"
    using valid' by (intro mapE_Inr) (simp add: list_all_iff validLock_prepareElement)
  obtain enc where 4: "encodeLockArray (map preparedOf ?sorted) = Inr enc"
    using encodeLockArray_valid [OF valid'] by (cases "encodeLockArray (map preparedOf ?sorted)") auto
  obtain w1 where 5: "encodeAddress (ve_arbiter e) = Inr w1"
    using encodeAddress_ok [OF assms(2)] by (cases "encodeAddress (ve_arbiter e)") auto
  obtain w2 where 6: "encodeUint256 (ve_chainId e) = Inr w2"
    using assms(3,4) by (simp add: encodeUint256_def)
  have "elementEncoding kec eth e = Inr ((encodeHash eth @ w1 @ w2 @ encodeHash (kec enc)) @ w)"
    using assms(2,5) by (simp add: elementEncoding_def 2 3 4 5 6 getAddress_isAddress Let_def)
  then show ?thesis by blast
qed

lemma claimPreimage_valid:
  assumes "isAddress (vm_sponsor c)" "0 \<le> vm_nonce c" "vm_nonce c < 2 ^ 256"
    and "0 \<le> vm_expires c" "vm_expires c < 2 ^ 256"
    and "\<And>e. e \<in> set (vm_elements c) \<Longrightarrow>
           \<not> isl (elementEncoding kec (kec (encodePackedString (elementTypeString wts))) e)"
  shows "\<exists>y. claimPreimage kec c wts = Inr y"
proof -
  let ?eth = "kec (encodePackedString (elementTypeString wts))"
  have "\<not> isl (mapE (elementHash kec ?eth) (vm_elements c))"
    using assms(6) by (intro mapE_ok) (auto simp: elementHash_def isl_bindE)
  then obtain hs where hs: "mapE (elementHash kec ?eth) (vm_elements c) = Inr hs"
    by (cases "mapE (elementHash kec ?eth) (vm_elements c)") auto
  obtain w1 where w1: "encodeAddress (vm_sponsor c) = Inr w1"
    using encodeAddress_ok [OF assms(1)] by (cases "encodeAddress (vm_sponsor c)") auto
  show ?thesis
    using assms(1-5) hs w1
    by (simp add: claimPreimage_def getAddress_isAddress multichainEncoding_def encodeUint256_def)
qed

lemma encodeBytes32_exWitnessHash: "encodeBytes32 exWitnessHash = Inr (be_bytes 32 17)"
  by (simp add: encodeBytes32_def exWitnessHash_def isHexDigit_def digitVal_def)

lemma encodeBytes32_exWitnessHash2: "encodeBytes32 exWitnessHash2 = Inr (be_bytes 32 34)"
  by (simp add: encodeBytes32_def exWitnessHash2_def isHexDigit_def digitVal_def)

lemma validLock_exLock: "validLock exLock"
  by (simp add: validLock_def exLock_def matchesLockTag_def isAddress_def isHexDigit_def
        digitVal_def BigInt_5e17)

lemma exElement_encoding:
  assumes "0 \<le> chain" "chain < 2 ^ 256" "encodeBytes32 wh = Inr w"
  shows "\<exists>pre. elementEncoding kec eth (exElement chain wh) = Inr (pre @ w)"
proof (rule elementEncoding_valid)
  show "list_all validLock (ve_commitments (exElement chain wh))"
    by (simp add: exElement_def validLock_exLock)
  show "isAddress (ve_arbiter (exElement chain wh))"
    by (simp add: exElement_def isAddress_def isHexDigit_def digitVal_def)
  show "0 \<le> ve_chainId (exElement chain wh)" "ve_chainId (exElement chain wh) < 2 ^ 256"
    using assms(1,2) by (simp_all add: exElement_def)
  show "encodeBytes32 (ve_witnessHash (exElement chain wh)) = Inr w"
    using assms(3) by (simp add: exElement_def)
qed

theorem multichain_hash_order_sensitive_witness:
  "generateMultichainClaimHash exKeccak
     (exTwoElements [exElement 137 exWitnessHash, exElement 10 exWitnessHash2]) 1
     (Some ''uint256 witnessArgument'') = Inr 34
   \<and> generateMultichainClaimHash exKeccak
     (exTwoElements [exElement 10 exWitnessHash2, exElement 137 exWitnessHash]) 1
     (Some ''uint256 witnessArgument'') = Inr 17"
proof -
  let ?wts = "Some ''uint256 witnessArgument''"
  let ?eth = "exKeccak (encodePackedString (elementTypeString ?wts))"
  let ?e1 = "exElement 137 exWitnessHash"
  let ?e2 = "exElement 10 exWitnessHash2"
  let ?c = "exTwoElements [?e1, ?e2]"
  let ?c' = "exTwoElements [?e2, ?e1]"
  obtain p1 where x1: "elementEncoding exKeccak ?eth ?e1 = Inr (p1 @ be_bytes 32 17)"
    using exElement_encoding [OF _ _ encodeBytes32_exWitnessHash, of 137 exKeccak ?eth] by auto
  obtain p2 where x2: "elementEncoding exKeccak ?eth ?e2 = Inr (p2 @ be_bytes 32 34)"
    using exElement_encoding [OF _ _ encodeBytes32_exWitnessHash2, of 10 exKeccak ?eth] by auto
  have k1: "exKeccak (p1 @ be_bytes 32 17) = 17" and k2: "exKeccak (p2 @ be_bytes 32 34) = 34"
    by (simp_all add: exKeccak_last_word)
  have sp: "isAddress (vm_sponsor (exTwoElements es))" for es
    by (simp add: exTwoElements_def exSponsor_def isAddress_def isHexDigit_def digitVal_def)
  have ok: "\<not> isl (elementEncoding exKeccak ?eth e)"
    if "e \<in> set (vm_elements (exTwoElements es))" "set es \<subseteq> {?e1, ?e2}" for e es
    using that x1 x2 by (auto simp: exTwoElements_def)
  obtain y where y: "claimPreimage exKeccak ?c ?wts = Inr y"
    using claimPreimage_valid [of ?c exKeccak ?wts, OF sp] ok [of _ "[?e1, ?e2]"]
    by (auto simp: exTwoElements_def)
  obtain y' where y': "claimPreimage exKeccak ?c' ?wts = Inr y'"
    using claimPreimage_valid [of ?c' exKeccak ?wts, OF sp] ok [of _ "[?e2, ?e1]"]
    by (auto simp: exTwoElements_def)
  have el: "vm_elements ?c = [?e1, ?e2]" by (simp add: exTwoElements_def)
  have sw: "?c\<lparr>vm_elements := [?e2, ?e1]\<rparr> = ?c'" by (simp add: exTwoElements_def)
  obtain w where w: "y = w @ encodeHash (exKeccak (encodeHashArray [exKeccak (p1 @ be_bytes 32 17),
                                                       exKeccak (p2 @ be_bytes 32 34)]))"
      "claimPreimage exKeccak ?c' ?wts
         = Inr (w @ encodeHash (exKeccak (encodeHashArray [exKeccak (p2 @ be_bytes 32 34),
                                               exKeccak (p1 @ be_bytes 32 17)])))"
    using claimPreimage_two [OF el x1 x2 y] by (auto simp: exTwoElements_def)
  have ky: "exKeccak y = 34"
    unfolding w(1) exKeccak_encodeHash exKeccak_encodeHashArray by (rule k2)
  have ky': "exKeccak y' = 17"
    using w(2) y' unfolding exKeccak_encodeHashArray by (auto simp: exKeccak_encodeHash k1)
  have d: "p1 @ be_bytes 32 17 \<noteq> p2 @ be_bytes 32 34" using k1 k2 by auto
  have n1: "noCollision exKeccak (p1 @ be_bytes 32 17) (p2 @ be_bytes 32 34)"
    by (simp add: noCollision_def k1 k2)
  have n2: "noCollision exKeccak
              (encodeHashArray [exKeccak (p1 @ be_bytes 32 17), exKeccak (p2 @ be_bytes 32 34)])
              (encodeHashArray [exKeccak (p2 @ be_bytes 32 34), exKeccak (p1 @ be_bytes 32 17)])"
    by (simp add: noCollision_def exKeccak_encodeHashArray k1 k2)
  have n3: "noCollision exKeccak y y'" by (simp add: noCollision_def ky ky')
  show ?thesis
    using multichain_hash_order_sensitive [OF el x1 x2 d y _ n1 n2 n3, of 1] y'
    by (simp add: sw ky ky')
qed

end
